theory Spec2Isabelle
  imports Complex_Main
begin

section \<open>Data model\<close>

text \<open>
  The module \<^verbatim>\<open>kde_ebm/mixture_model/utils.py\<close> works on a two-dimensional numpy array
  \<^verbatim>\<open>X\<close> (patients by biomarkers) and a label vector \<^verbatim>\<open>y\<close>.  A cell of \<^verbatim>\<open>X\<close> is a
  number or not-a-number; \<^verbatim>\<open>None\<close> stands for not-a-number, so \<^verbatim>\<open>np.isnan\<close> is the
  test \<open>c = None\<close>.
  A table keeps its column count next to its rows, as \<^verbatim>\<open>X.shape\<close> does, so that a
  table without rows still has its biomarker columns.
\<close>

text \<open>The exceptions: those that indexing and assignment raise, and \<open>FitError\<close> for
  whatever a mixture model raises of its own.\<close>

datatype py_error = IndexError | TypeError | ValueError | FitError

type_synonym cell = "real option"

record table =
  n_biomarkers :: nat
  rows :: "cell list list"

definition n_particp :: "table \<Rightarrow> nat" where
  "n_particp X = length (rows X)"

text \<open>\<^verbatim>\<open>X[:, i]\<close>: column \<open>i\<close>, one cell per row, in row order.\<close>

definition col :: "table \<Rightarrow> nat \<Rightarrow> cell list" where
  "col X i = map (\<lambda>r. r ! i) (rows X)"

text \<open>\<^verbatim>\<open>~np.isnan(c)\<close> on a column: the mask of the present cells.\<close>

definition not_nan :: "cell list \<Rightarrow> bool list" where
  "not_nan c = map (\<lambda>v. v \<noteq> None) c"

text \<open>\<^verbatim>\<open>a[mask]\<close> with a boolean mask: the entries where the mask is true, in order.\<close>

definition compress :: "bool list \<Rightarrow> 'a list \<Rightarrow> 'a list" where
  "compress m xs = map snd (filter fst (zip m xs))"

text \<open>\<^verbatim>\<open>c[~np.isnan(c)]\<close>: the numbers of the cells that are present, in order.\<close>

fun present :: "cell list \<Rightarrow> real list" where
  "present [] = []"
| "present (None # c) = present c"
| "present (Some v # c) = v # present c"

text \<open>\<^verbatim>\<open>xs[i]\<close> on a Python list with a non-negative index.\<close>

definition getitem :: "'a list \<Rightarrow> nat \<Rightarrow> py_error + 'a" where
  "getitem xs i = (if i < length xs then Inr (xs ! i) else Inl IndexError)"

section \<open>Arithmetic in float64\<close>

text \<open>
  numpy holds the measurements and the probabilities as float64.  A float64 value is
  carried here as the real number it stands for; not-a-number is \<^verbatim>\<open>None\<close> in a cell of the
  table, and infinities and a not-a-number among the probabilities are outside the model.
  Copying a value and the constant 0.5 are exact.  The one arithmetic operation of the
  module, \<^verbatim>\<open>1 - prob_mat[:, :, 0]\<close>, rounds its result to float64 (round to nearest, ties to
  even), and so does the addition \<^verbatim>\<open>tensor[p,b,0] + tensor[p,b,1]\<close>.  The difference and
  the sum of the values met here stay far below the overflow threshold.
\<close>

text \<open>The number of binary digits of a positive integer.\<close>

function bit_length :: "int \<Rightarrow> int" where
  "bit_length n = (if n \<le> 0 then 0 else 1 + bit_length (n div 2))"
  by pat_completeness auto
termination
  by (relation "measure nat") auto

declare bit_length.simps [simp del]

text \<open>The binary exponent of a positive number \<open>x\<close>: \<open>2 powi expo x \<le> x < 2 powi (expo x + 1)\<close>.\<close>

definition expo :: "real \<Rightarrow> int" where
  "expo x =
     (if 1 \<le> x then bit_length \<lfloor>x\<rfloor> - 1
      else (let k = bit_length \<lfloor>1 / x\<rfloor> - 1
            in if 1 / x = 2 powi k then - k else - k - 1))"

text \<open>The nearest integer, a tie going to the even one.\<close>

definition round_even :: "real \<Rightarrow> int" where
  "round_even q =
     (let f = \<lfloor>q\<rfloor>; d = q - of_int f
      in if d < 1/2 then f else if 1/2 < d then f + 1 else if even f then f else f + 1)"

text \<open>
  Rounding to float64: the unit in the last place is \<open>2 powi (expo \<bar>x\<bar> - 52)\<close>, or
  \<open>2 powi (- 1074)\<close> for a subnormal number, and \<open>x\<close> goes to the nearest multiple of it.
\<close>

definition fl :: "real \<Rightarrow> real" where
  "fl x =
     (if x = 0 then 0
      else (let u = max (expo \<bar>x\<bar> - 52) (- 1074)
            in of_int (round_even (x / 2 powi u)) * 2 powi u))"

text \<open>Subtraction and addition of two float64 values, as numpy does them.\<close>

definition fsub :: "real \<Rightarrow> real \<Rightarrow> real" where
  "fsub x y = fl (x - y)"

definition fadd :: "real \<Rightarrow> real \<Rightarrow> real" where
  "fadd x y = fl (x + y)"

text \<open>A real number is a float64 value when rounding leaves it as it is and it is below the
  overflow threshold.\<close>

definition float64 :: "real \<Rightarrow> bool" where
  "float64 x = (fl x = x \<and> \<bar>x\<bar> < 2 ^ 1024)"

section \<open>The probability tensor: \<^verbatim>\<open>get_prob_mat\<close>\<close>

text \<open>
  A fitted mixture model is used only through \<^verbatim>\<open>probability\<close>, which takes an array of
  numbers and returns an array (or raises).  The tensor is a list of patients, each a list
  of biomarkers, each a list of two slots.
\<close>

type_synonym model = "real list \<Rightarrow> py_error + real list"

type_synonym tensor = "real list list list"

definition zeros :: "nat \<Rightarrow> nat \<Rightarrow> nat \<Rightarrow> tensor" where
  "zeros n b k = replicate n (replicate b (replicate k 0))"

text \<open>Writing one slot \<^verbatim>\<open>[i, s]\<close> of a patient's row of the tensor.\<close>

definition set_slot :: "nat \<Rightarrow> nat \<Rightarrow> real \<Rightarrow> real list list \<Rightarrow> real list list" where
  "set_slot i s v r = r[i := (r ! i)[s := v]]"

text \<open>
  numpy broadcasts the right-hand side of an indexed assignment to the shape \<open>(k,)\<close> of the
  indexed cells: a one-dimensional value of length \<open>k\<close> is taken as it is, one of length 1
  is repeated, anything else is a \<^verbatim>\<open>ValueError\<close>.
\<close>

definition broadcast_to :: "nat \<Rightarrow> real list \<Rightarrow> py_error + real list" where
  "broadcast_to k vs =
     (if length vs = k then Inr vs
      else if length vs = 1 then Inr (replicate k (vs ! 0))
      else Inl ValueError)"

text \<open>
  \<^verbatim>\<open>prob_mat[mask, i, s] = vs\<close> once \<open>vs\<close> has one value per true entry of the mask: the
  values go to the masked patients in row order.
\<close>

fun scatter :: "bool list \<Rightarrow> real list \<Rightarrow> nat \<Rightarrow> nat \<Rightarrow> tensor \<Rightarrow> tensor" where
  "scatter (True # m) (v # vs) i s (r # rs) = set_slot i s v r # scatter m vs i s rs"
| "scatter (False # m) vs i s (r # rs) = r # scatter m vs i s rs"
| "scatter m vs i s rs = rs"

definition count_true :: "bool list \<Rightarrow> nat" where
  "count_true m = length (filter (\<lambda>b. b) m)"

definition assign_masked ::
  "bool list \<Rightarrow> nat \<Rightarrow> nat \<Rightarrow> real list \<Rightarrow> tensor \<Rightarrow> py_error + tensor" where
  "assign_masked m i s vs pm =
     (case broadcast_to (count_true m) vs of
        Inl e \<Rightarrow> Inl e
      | Inr ws \<Rightarrow> Inr (scatter m ws i s pm))"

text \<open>\<^verbatim>\<open>prob_mat[mask, i, s] = c\<close> with a scalar \<open>c\<close>.\<close>

definition assign_const :: "bool list \<Rightarrow> nat \<Rightarrow> nat \<Rightarrow> real \<Rightarrow> tensor \<Rightarrow> tensor" where
  "assign_const m i s c pm = scatter m (replicate (count_true m) c) i s pm"

text \<open>\<^verbatim>\<open>prob_mat[:, :, 1] = 1 - prob_mat[:, :, 0]\<close>, a subtraction in float64.\<close>

definition complement :: "tensor \<Rightarrow> tensor" where
  "complement pm = map (map (\<lambda>c. c[1 := fsub 1 (c ! 0)])) pm"

text \<open>
  The loop over the biomarkers.  Besides the tensor it keeps the log of the calls of
  \<^verbatim>\<open>probability\<close> made so far: the biomarker and the array passed.  An exception ends
  the loop; the log then holds the calls made up to it.
\<close>

type_synonym prob_call = "nat \<times> real list"

fun prob_loop ::
  "table \<Rightarrow> model list \<Rightarrow> nat list \<Rightarrow> prob_call list \<Rightarrow> tensor \<Rightarrow>
   prob_call list \<times> (py_error + tensor)" where
  "prob_loop X mixture_models [] calls prob_mat = (calls, Inr prob_mat)"
| "prob_loop X mixture_models (i # is) calls prob_mat =
     (let nan_mask = not_nan (col X i) in
      case getitem mixture_models i of
        Inl e \<Rightarrow> (calls, Inl e)
      | Inr mm \<Rightarrow>
          let arg = present (col X i); calls' = calls @ [(i, arg)] in
          (case mm arg of
             Inl e \<Rightarrow> (calls', Inl e)
           | Inr probs \<Rightarrow>
               (case assign_masked nan_mask i 0 probs prob_mat of
                  Inl e \<Rightarrow> (calls', Inl e)
                | Inr pm1 \<Rightarrow>
                    prob_loop X mixture_models is calls'
                      (assign_const (map Not nan_mask) i 0 (1/2) pm1))))"

definition get_prob_mat ::
  "table \<Rightarrow> model list \<Rightarrow> prob_call list \<times> (py_error + tensor)" where
  "get_prob_mat X mixture_models =
     (case prob_loop X mixture_models [0..<n_biomarkers X] []
             (zeros (n_particp X) (n_biomarkers X) 2) of
        (calls, Inl e) \<Rightarrow> (calls, Inl e)
      | (calls, Inr prob_mat) \<Rightarrow> (calls, Inr (complement prob_mat)))"


subsection \<open>Notions used to state the properties of the tensor\<close>

text \<open>The number of present rows before row \<open>p\<close>: the position of row \<open>p\<close>'s value in the
  array of present values.\<close>

definition rank :: "bool list \<Rightarrow> nat \<Rightarrow> nat" where
  "rank m p = count_true (take p m)"

text \<open>What both assignments of one pass of the loop leave in slot 0 of row \<open>p\<close>, for the
  column \<open>c\<close> and the broadcast values \<open>ws\<close>.\<close>

definition column_value :: "cell list \<Rightarrow> real list \<Rightarrow> nat \<Rightarrow> real" where
  "column_value c ws p = (case c ! p of None \<Rightarrow> 1/2 | Some v \<Rightarrow> ws ! rank (not_nan c) p)"

text \<open>What the assembler gets for column \<open>b\<close>: the model's answer on the present values,
  broadcast to their number.\<close>

definition column_probs :: "table \<Rightarrow> model list \<Rightarrow> nat \<Rightarrow> py_error + real list" where
  "column_probs X mixture_models b =
     (case getitem mixture_models b of
        Inl e \<Rightarrow> Inl e
      | Inr mm \<Rightarrow>
          (case mm (present (col X b)) of
             Inl e \<Rightarrow> Inl e
           | Inr probs \<Rightarrow> broadcast_to (count_true (not_nan (col X b))) probs))"

text \<open>A table with a missing cell and the tensor that two identity models give for it.\<close>

abbreviation example_table :: table where
  "example_table \<equiv>
     \<lparr>n_biomarkers = 2, rows = [[Some (1/4), None], [Some (3/4), Some (1/8)]]\<rparr>"

abbreviation example_tensor :: tensor where
  "example_tensor \<equiv> [[[1/4, 3/4], [1/2, 1/2]], [[3/4, 1/4], [1/8, 7/8]]]"

section \<open>Fitting one mixture model per biomarker\<close>

text \<open>
  The label vector \<^verbatim>\<open>y\<close> is an array of integers.  Each entry point starts with
  \<^verbatim>\<open>msk = np.where(y<2)[0]; X = X[msk]; y = y[msk]\<close>: \<open>msk\<close> holds the positions of the
  labels below 2, in increasing order; indexing \<^verbatim>\<open>X\<close> with it takes those rows and raises
  \<^verbatim>\<open>IndexError\<close> when a position is not a row of \<^verbatim>\<open>X\<close>.
\<close>

definition where_lt2 :: "int list \<Rightarrow> nat list" where
  "where_lt2 y = filter (\<lambda>k. y ! k < 2) [0..<length y]"

definition take_rows :: "table \<Rightarrow> nat list \<Rightarrow> py_error + table" where
  "take_rows X msk =
     (if \<forall>k\<in>set msk. k < n_particp X
      then Inr (X\<lparr>rows := map (\<lambda>k. rows X ! k) msk\<rparr>)
      else Inl IndexError)"

definition take_labels :: "int list \<Rightarrow> nat list \<Rightarrow> int list" where
  "take_labels y msk = map (\<lambda>k. y ! k) msk"

definition first_two_diagnoses :: "table \<Rightarrow> int list \<Rightarrow> py_error + table \<times> int list" where
  "first_two_diagnoses X y =
     (let msk = where_lt2 y in
      case take_rows X msk of
        Inl e \<Rightarrow> Inl e
      | Inr X' \<Rightarrow> Inr (X', take_labels y msk))"

text \<open>
  The mixture model classes \<^verbatim>\<open>ParametricMM\<close> and \<^verbatim>\<open>KDEMM\<close> are parameters of the
  model: \<open>fit\<close> stands for constructing a fresh model and calling its \<^verbatim>\<open>fit\<close> with the
  given arguments, and returns the fitted model or the exception raised.  The arguments of
  one call are a record; the Gaussian-mixture call passes the measurements and the labels,
  the kernel-density call also the constructor's \<^verbatim>\<open>alpha\<close> and \<^verbatim>\<open>beta\<close> and the three
  keyword arguments.
\<close>

text \<open>A Python value that a hyperparameter can be: \<^verbatim>\<open>None\<close>, a number, or a list.\<close>

datatype pyval = PyNone | PyFloat real | PyList "pyval list"

record fit_args =
  bio_X :: "real list"
  bio_y :: "int list"

record kde_fit_args = fit_args +
  alpha :: pyval
  beta :: pyval
  implement_fixed_controls :: bool
  patholog_dirn :: int
  outlier_controls_quantile :: real

text \<open>
  The loop \<^verbatim>\<open>for i in range(n_biomarkers)\<close> of the three entry points: \<open>args i\<close> is the
  part of the body before the model is built (it may raise), \<open>fit\<close> builds and fits the
  model, and the fitted model is appended.  The log holds the arguments of every call of
  \<open>fit\<close> made, the failing one included.
\<close>

fun fit_loop ::
  "(nat \<Rightarrow> py_error + 'a) \<Rightarrow> ('a \<Rightarrow> py_error + 'm) \<Rightarrow> nat list \<Rightarrow> 'a list \<Rightarrow> 'm list \<Rightarrow>
   'a list \<times> (py_error + 'm list)" where
  "fit_loop args fit [] calls mixture_models = (calls, Inr mixture_models)"
| "fit_loop args fit (i # is) calls mixture_models =
     (case args i of
        Inl e \<Rightarrow> (calls, Inl e)
      | Inr a \<Rightarrow>
          (case fit a of
             Inl e \<Rightarrow> (calls @ [a], Inl e)
           | Inr mm \<Rightarrow> fit_loop args fit is (calls @ [a]) (mixture_models @ [mm])))"

subsection \<open>\<^verbatim>\<open>fit_all_gmm_models\<close>\<close>

definition gmm_args :: "table \<Rightarrow> int list \<Rightarrow> nat \<Rightarrow> py_error + fit_args" where
  "gmm_args X y i =
     Inr \<lparr>bio_X = present (col X i), bio_y = compress (not_nan (col X i)) y\<rparr>"

definition fit_all_gmm_models ::
  "(fit_args \<Rightarrow> py_error + 'm) \<Rightarrow> table \<Rightarrow> int list \<Rightarrow> bool \<Rightarrow>
   fit_args list \<times> (py_error + 'm list)" where
  "fit_all_gmm_models fit X y flag =
     (case first_two_diagnoses X y of
        Inl e \<Rightarrow> ([], Inl e)
      | Inr (X', y') \<Rightarrow> fit_loop (gmm_args X' y') fit [0..<n_biomarkers X'] [] [])"

subsection \<open>\<^verbatim>\<open>fit_all_kde_models\<close>\<close>

text \<open>
  \<^verbatim>\<open>patholog_dirn_array\<close> is \<^verbatim>\<open>None\<close> (its default) or a sequence of integers;
  subscripting \<^verbatim>\<open>None\<close> is a \<^verbatim>\<open>TypeError\<close>.
\<close>

definition dirn_getitem :: "int list option \<Rightarrow> nat \<Rightarrow> py_error + int" where
  "dirn_getitem patholog_dirn_array i =
     (case patholog_dirn_array of
        None \<Rightarrow> Inl TypeError
      | Some ds \<Rightarrow> getitem ds i)"

definition kde_args ::
  "table \<Rightarrow> int list \<Rightarrow> bool \<Rightarrow> int list option \<Rightarrow> pyval \<Rightarrow> pyval \<Rightarrow> real \<Rightarrow> nat \<Rightarrow>
   py_error + kde_fit_args" where
  "kde_args X y flag patholog_dirn_array a b quant i =
     (case dirn_getitem patholog_dirn_array i of
        Inl e \<Rightarrow> Inl e
      | Inr dirn \<Rightarrow>
          Inr \<lparr>bio_X = present (col X i), bio_y = compress (not_nan (col X i)) y,
               alpha = a, beta = b, implement_fixed_controls = flag,
               patholog_dirn = dirn, outlier_controls_quantile = quant\<rparr>)"

definition fit_all_kde_models ::
  "(kde_fit_args \<Rightarrow> py_error + 'm) \<Rightarrow> table \<Rightarrow> int list \<Rightarrow> bool \<Rightarrow> int list option \<Rightarrow>
   pyval \<Rightarrow> pyval \<Rightarrow> real \<Rightarrow> kde_fit_args list \<times> (py_error + 'm list)" where
  "fit_all_kde_models fit X y flag patholog_dirn_array a b quant =
     (case first_two_diagnoses X y of
        Inl e \<Rightarrow> ([], Inl e)
      | Inr (X', y') \<Rightarrow>
          fit_loop (kde_args X' y' flag patholog_dirn_array a b quant) fit
            [0..<n_biomarkers X'] [] [])"

subsection \<open>\<^verbatim>\<open>fit_all_kde_models_plus\<close>\<close>

text \<open>\<^verbatim>\<open>type(v) is not list\<close>.\<close>

fun is_not_list :: "pyval \<Rightarrow> bool" where
  "is_not_list (PyList vs) = False"
| "is_not_list v = True"

text \<open>
  The two blocks that resolve the hyperparameters: \<^verbatim>\<open>None\<close> becomes 0.3 (for
  \<^verbatim>\<open>alphas\<close>) or the resolved \<^verbatim>\<open>alphas\<close> (for \<^verbatim>\<open>betas\<close>); then anything that is not a
  list is copied once per biomarker.
\<close>

definition resolve_alphas :: "nat \<Rightarrow> pyval \<Rightarrow> pyval" where
  "resolve_alphas n alphas =
     (let alphas = (if alphas = PyNone then PyFloat (3/10) else alphas)
      in if is_not_list alphas then PyList (replicate n alphas) else alphas)"

definition resolve_betas :: "nat \<Rightarrow> pyval \<Rightarrow> pyval \<Rightarrow> pyval" where
  "resolve_betas n alphas betas =
     (let betas = (if betas = PyNone then alphas else betas)
      in if is_not_list betas then PyList (replicate n betas) else betas)"

text \<open>\<^verbatim>\<open>v[i]\<close> on a Python value, for \<open>i \<ge> 0\<close>.\<close>

fun subscript :: "pyval \<Rightarrow> nat \<Rightarrow> py_error + pyval" where
  "subscript (PyList vs) i = getitem vs i"
| "subscript v i = Inl TypeError"

definition kde_plus_args ::
  "table \<Rightarrow> int list \<Rightarrow> bool \<Rightarrow> int list option \<Rightarrow> pyval \<Rightarrow> pyval \<Rightarrow> real \<Rightarrow> nat \<Rightarrow>
   py_error + kde_fit_args" where
  "kde_plus_args X y flag patholog_dirn_array alphas betas quant i =
     (case dirn_getitem patholog_dirn_array i of
        Inl e \<Rightarrow> Inl e
      | Inr dirn \<Rightarrow>
          (case subscript alphas i of
             Inl e \<Rightarrow> Inl e
           | Inr a \<Rightarrow>
               (case subscript betas i of
                  Inl e \<Rightarrow> Inl e
                | Inr b \<Rightarrow>
                    Inr \<lparr>bio_X = present (col X i), bio_y = compress (not_nan (col X i)) y,
                         alpha = a, beta = b, implement_fixed_controls = flag,
                         patholog_dirn = dirn, outlier_controls_quantile = quant\<rparr>)))"

definition fit_all_kde_models_plus ::
  "(kde_fit_args \<Rightarrow> py_error + 'm) \<Rightarrow> table \<Rightarrow> int list \<Rightarrow> bool \<Rightarrow> int list option \<Rightarrow>
   pyval \<Rightarrow> pyval \<Rightarrow> real \<Rightarrow> kde_fit_args list \<times> (py_error + 'm list)" where
  "fit_all_kde_models_plus fit X y flag patholog_dirn_array alphas betas quant =
     (case first_two_diagnoses X y of
        Inl e \<Rightarrow> ([], Inl e)
      | Inr (X', y') \<Rightarrow>
          (let n = n_biomarkers X';
               alphas = resolve_alphas n alphas;
               betas = resolve_betas n alphas betas
           in fit_loop (kde_plus_args X' y' flag patholog_dirn_array alphas betas quant) fit
                [0..<n] [] []))"

subsection \<open>Notions used to state the properties of the fitting\<close>

text \<open>
  The training data as the data filter is described: the rows whose label is 0 or 1, each
  with its label, in row order; and for biomarker \<open>i\<close> the present values of column \<open>i\<close>
  of those rows, each with the label of its row.
\<close>

definition two_class_rows :: "table \<Rightarrow> int list \<Rightarrow> (cell list \<times> int) list" where
  "two_class_rows X y = filter (\<lambda>(r, l). l = 0 \<or> l = 1) (zip (rows X) y)"

definition pairs_of :: "nat \<Rightarrow> (cell list \<times> int) list \<Rightarrow> (real \<times> int) list" where
  "pairs_of i zs = concat (map (\<lambda>(r, l). case r ! i of None \<Rightarrow> [] | Some v \<Rightarrow> [(v, l)]) zs)"

definition training_pairs :: "table \<Rightarrow> int list \<Rightarrow> nat \<Rightarrow> (real \<times> int) list" where
  "training_pairs X y i = pairs_of i (two_class_rows X y)"

text \<open>Call \<open>k\<close> of \<open>fit\<close> gets the present values of column \<open>k\<close> of a table and the
  labels of their rows.\<close>

definition calls_take_columns ::
  "table \<Rightarrow> int list \<Rightarrow> ('a fit_args_scheme) list \<Rightarrow> bool" where
  "calls_take_columns X y calls =
     (\<forall>k<length calls. bio_X (calls ! k) = present (col X k) \<and>
                       bio_y (calls ! k) = compress (not_nan (col X k)) y)"

text \<open>Call \<open>k\<close> of \<open>fit\<close> gets the values and the labels of the training pairs of
  biomarker \<open>k\<close>.\<close>

definition fitted_on_training_pairs ::
  "table \<Rightarrow> int list \<Rightarrow> ('a fit_args_scheme) list \<Rightarrow> bool" where
  "fitted_on_training_pairs X y calls =
     (\<forall>k<length calls. bio_X (calls ! k) = map fst (training_pairs X y k) \<and>
                       bio_y (calls ! k) = map snd (training_pairs X y k))"

text \<open>A run that returns gives one model per biomarker: model \<open>k\<close> is what \<open>fit\<close>
  returned for call \<open>k\<close>.\<close>

definition one_model_per_biomarker ::
  "('a \<Rightarrow> py_error + 'm) \<Rightarrow> nat \<Rightarrow> 'a list \<times> (py_error + 'm list) \<Rightarrow> bool" where
  "one_model_per_biomarker fit n r =
     (case snd r of
        Inl e \<Rightarrow> True
      | Inr ms \<Rightarrow> length ms = n \<and> length (fst r) = n \<and>
                 (\<forall>k<n. fit (fst r ! k) = Inr (ms ! k)))"

text \<open>
  What the entry points are to do with the training pairs.  \<open>fits_in_order fit cs\<close> makes
  the calls \<open>cs\<close> of \<open>fit\<close> one after the other and stops at the first one that fails:
  it gives the calls made, the failing one included, and either the models that \<open>fit\<close>
  returned, in order, or the first failure.
\<close>

fun fits_in_order ::
  "('a \<Rightarrow> py_error + 'm) \<Rightarrow> 'a list \<Rightarrow> 'a list \<times> (py_error + 'm list)" where
  "fits_in_order fit [] = ([], Inr [])"
| "fits_in_order fit (c # cs) =
     (case fit c of
        Inl e \<Rightarrow> ([c], Inl e)
      | Inr mm \<Rightarrow>
          (case fits_in_order fit cs of
             (made, Inl e) \<Rightarrow> (c # made, Inl e)
           | (made, Inr ms) \<Rightarrow> (c # made, Inr (mm # ms))))"

text \<open>
  The call expected for biomarker \<open>k\<close>: the values and the labels of its training pairs
  and, for the kernel-density models, the hyperparameters, the flag, entry \<open>k\<close> of the
  direction array and the quantile; for \<^verbatim>\<open>fit_all_kde_models_plus\<close> the hyperparameters
  are entry \<open>k\<close> of the two resolved lists.
\<close>

definition gmm_call :: "table \<Rightarrow> int list \<Rightarrow> nat \<Rightarrow> fit_args" where
  "gmm_call X y k =
     \<lparr>bio_X = map fst (training_pairs X y k), bio_y = map snd (training_pairs X y k)\<rparr>"

definition kde_call ::
  "table \<Rightarrow> int list \<Rightarrow> bool \<Rightarrow> int list \<Rightarrow> pyval \<Rightarrow> pyval \<Rightarrow> real \<Rightarrow> nat \<Rightarrow> kde_fit_args" where
  "kde_call X y flag ds a b quant k =
     \<lparr>bio_X = map fst (training_pairs X y k), bio_y = map snd (training_pairs X y k),
      alpha = a, beta = b, implement_fixed_controls = flag, patholog_dirn = ds ! k,
      outlier_controls_quantile = quant\<rparr>"

definition kde_plus_call ::
  "table \<Rightarrow> int list \<Rightarrow> bool \<Rightarrow> int list \<Rightarrow> pyval list \<Rightarrow> pyval list \<Rightarrow> real \<Rightarrow> nat \<Rightarrow>
   kde_fit_args" where
  "kde_plus_call X y flag ds as bs quant k = kde_call X y flag ds (as ! k) (bs ! k) quant k"

text \<open>Call \<open>i\<close> of \<open>fit\<close> is for a model built with entry \<open>i\<close> of each of the two
  hyperparameter sequences.\<close>

definition built_with :: "pyval \<Rightarrow> pyval \<Rightarrow> kde_fit_args list \<Rightarrow> bool" where
  "built_with alphas betas calls =
     (\<forall>i<length calls. subscript alphas i = Inr (alpha (calls ! i)) \<and>
                       subscript betas i = Inr (beta (calls ! i)))"

text \<open>Call \<open>k\<close> of \<open>fit\<close> gets a non-empty array of measurements exactly when some row
  with a label below 2 has a value in column \<open>k\<close>; the labels passed are as many as the
  measurements.\<close>

definition empty_without_present_row ::
  "table \<Rightarrow> int list \<Rightarrow> ('a fit_args_scheme) list \<Rightarrow> bool" where
  "empty_without_present_row X y calls =
     (\<forall>k<length calls.
        (bio_X (calls ! k) \<noteq> []) = (\<exists>(r, l)\<in>set (zip (rows X) y). l < 2 \<and> r ! k \<noteq> None) \<and>
        length (bio_y (calls ! k)) = length (bio_X (calls ! k)))"

text \<open>A table with missing cells, and labels with one patient of an excluded class.\<close>

abbreviation fit_table :: table where
  "fit_table \<equiv>
     \<lparr>n_biomarkers = 2, rows = [[Some 1, None], [None, Some 3], [Some 4, Some 5]]\<rparr>"

abbreviation fit_labels :: "int list" where
  "fit_labels \<equiv> [0, 2, 1]"

text \<open>A table with one biomarker and no missing cell.\<close>

abbreviation one_column :: table where
  "one_column \<equiv> \<lparr>n_biomarkers = 1, rows = [[Some 1], [Some 2]]\<rparr>"

text \<open>A table whose second biomarker was measured for nobody.\<close>

abbreviation empty_column :: table where
  "empty_column \<equiv> \<lparr>n_biomarkers = 2, rows = [[Some 1, None], [Some 2, None]]\<rparr>"


section \<open>The same operations on a store of arrays\<close>

text \<open>
  Python passes arrays by reference, so whether the caller's \<^verbatim>\<open>X\<close> and \<^verbatim>\<open>y\<close> can change
  depends on which arrays the code writes and which it hands to the mixture models.  Here
  the arrays live in a store; a variable holds an address.  The store has one component
  per kind of array: tables, label vectors, one-dimensional arrays of numbers, and
  tensors.  A new array gets the next free address of its component.

  numpy's indexing decides what is a copy: indexing with an array of positions or with a
  boolean mask (\<^verbatim>\<open>X[msk]\<close>, \<^verbatim>\<open>y[msk]\<close>, \<^verbatim>\<open>y[mask]\<close>, \<^verbatim>\<open>X[mask, i]\<close>, \<^verbatim>\<open>bio_X[mask]\<close>) makes a
  new array, the slice \<^verbatim>\<open>X[:, i]\<close> is a view of \<^verbatim>\<open>X\<close>, and \<^verbatim>\<open>np.zeros\<close> makes a new array.
\<close>

type_synonym addr = nat

record store =
  tables :: "table list"
  labels :: "int list list"
  floats :: "real list list"
  tensors :: "tensor list"

definition new_table :: "table \<Rightarrow> store \<Rightarrow> addr \<times> store" where
  "new_table t s = (length (tables s), s\<lparr>tables := tables s @ [t]\<rparr>)"

definition new_labels :: "int list \<Rightarrow> store \<Rightarrow> addr \<times> store" where
  "new_labels l s = (length (labels s), s\<lparr>labels := labels s @ [l]\<rparr>)"

definition new_floats :: "real list \<Rightarrow> store \<Rightarrow> addr \<times> store" where
  "new_floats v s = (length (floats s), s\<lparr>floats := floats s @ [v]\<rparr>)"

definition new_tensor :: "tensor \<Rightarrow> store \<Rightarrow> addr \<times> store" where
  "new_tensor t s = (length (tensors s), s\<lparr>tensors := tensors s @ [t]\<rparr>)"

text \<open>The view \<^verbatim>\<open>X[:, i]\<close>: the table's address and the column.  Reading it reads the table.\<close>

datatype view = Column addr nat

fun read_view :: "store \<Rightarrow> view \<Rightarrow> cell list" where
  "read_view s (Column X i) = col (tables s ! X) i"

subsection \<open>The label filter\<close>

text \<open>
  \<^verbatim>\<open>X = X[msk]; y = y[msk]\<close> binds the local names to two new arrays; the result holds their
  addresses.
\<close>

definition first_two_diagnoses_h ::
  "addr \<Rightarrow> addr \<Rightarrow> store \<Rightarrow> store \<times> (py_error + addr \<times> addr)" where
  "first_two_diagnoses_h X y s =
     (let msk = where_lt2 (labels s ! y) in
      case take_rows (tables s ! X) msk of
        Inl e \<Rightarrow> (s, Inl e)
      | Inr X' \<Rightarrow>
          let (X1, s1) = new_table X' s;
              (y1, s2) = new_labels (take_labels (labels s1 ! y) msk) s1
          in (s2, Inr (X1, y1)))"

subsection \<open>The fitting loop\<close>

text \<open>
  What a call of \<open>fit\<close> is handed: the addresses of the two arrays and, for the
  kernel-density model, the constructor's and the keyword arguments.  A call of \<open>fit\<close> may
  change the store.
\<close>

record fit_refs =
  bio_X_at :: addr
  bio_y_at :: addr

record kde_fit_refs = fit_refs +
  alpha_arg :: pyval
  beta_arg :: pyval
  fixed_controls_arg :: bool
  dirn_arg :: int
  quantile_arg :: real

fun fit_loop_h ::
  "(nat \<Rightarrow> store \<Rightarrow> store \<times> (py_error + 'a)) \<Rightarrow> ('a \<Rightarrow> store \<Rightarrow> store \<times> (py_error + 'm)) \<Rightarrow>
   nat list \<Rightarrow> 'm list \<Rightarrow> store \<Rightarrow> store \<times> (py_error + 'm list)" where
  "fit_loop_h args fit [] mixture_models s = (s, Inr mixture_models)"
| "fit_loop_h args fit (i # is) mixture_models s =
     (case args i s of
        (s1, Inl e) \<Rightarrow> (s1, Inl e)
      | (s1, Inr a) \<Rightarrow>
          (case fit a s1 of
             (s2, Inl e) \<Rightarrow> (s2, Inl e)
           | (s2, Inr mm) \<Rightarrow> fit_loop_h args fit is (mixture_models @ [mm]) s2))"

text \<open>
  \<^verbatim>\<open>fit_all_gmm_models\<close>: \<^verbatim>\<open>bio_y = y[~np.isnan(X[:, i])]\<close> and
  \<^verbatim>\<open>bio_X = X[~np.isnan(X[:, i]), i]\<close> are new arrays.
\<close>

definition gmm_refs :: "addr \<Rightarrow> addr \<Rightarrow> nat \<Rightarrow> store \<Rightarrow> store \<times> (py_error + fit_refs)" where
  "gmm_refs X y i s =
     (let (bio_y, s1) = new_labels (compress (not_nan (read_view s (Column X i))) (labels s ! y)) s;
          (bio_X, s2) = new_floats (present (read_view s1 (Column X i))) s1
      in (s2, Inr \<lparr>bio_X_at = bio_X, bio_y_at = bio_y\<rparr>))"

definition fit_all_gmm_models_h ::
  "(fit_refs \<Rightarrow> store \<Rightarrow> store \<times> (py_error + 'm)) \<Rightarrow> addr \<Rightarrow> addr \<Rightarrow> bool \<Rightarrow> store \<Rightarrow>
   store \<times> (py_error + 'm list)" where
  "fit_all_gmm_models_h fit X y flag s =
     (case first_two_diagnoses_h X y s of
        (s1, Inl e) \<Rightarrow> (s1, Inl e)
      | (s1, Inr (X', y')) \<Rightarrow>
          fit_loop_h (gmm_refs X' y') fit [0..<n_biomarkers (tables s1 ! X')] [] s1)"

text \<open>
  \<^verbatim>\<open>fit_all_kde_models\<close>: \<^verbatim>\<open>bio_X = X[:, i]\<close> is a view of the filtered table; then
  \<^verbatim>\<open>bio_y = y[~np.isnan(bio_X)]\<close> and \<^verbatim>\<open>bio_X = bio_X[~np.isnan(bio_X)]\<close> are new arrays.
\<close>

definition kde_refs ::
  "addr \<Rightarrow> addr \<Rightarrow> bool \<Rightarrow> int list option \<Rightarrow> pyval \<Rightarrow> pyval \<Rightarrow> real \<Rightarrow> nat \<Rightarrow> store \<Rightarrow>
   store \<times> (py_error + kde_fit_refs)" where
  "kde_refs X y flag patholog_dirn_array a b quant i s =
     (case dirn_getitem patholog_dirn_array i of
        Inl e \<Rightarrow> (s, Inl e)
      | Inr dirn \<Rightarrow>
          let bio_X = Column X i;
              (bio_y, s1) = new_labels (compress (not_nan (read_view s bio_X)) (labels s ! y)) s;
              (bio_X, s2) = new_floats (present (read_view s1 bio_X)) s1
          in (s2, Inr \<lparr>bio_X_at = bio_X, bio_y_at = bio_y, alpha_arg = a, beta_arg = b,
                       fixed_controls_arg = flag, dirn_arg = dirn, quantile_arg = quant\<rparr>))"

definition fit_all_kde_models_h ::
  "(kde_fit_refs \<Rightarrow> store \<Rightarrow> store \<times> (py_error + 'm)) \<Rightarrow> addr \<Rightarrow> addr \<Rightarrow> bool \<Rightarrow>
   int list option \<Rightarrow> pyval \<Rightarrow> pyval \<Rightarrow> real \<Rightarrow> store \<Rightarrow> store \<times> (py_error + 'm list)" where
  "fit_all_kde_models_h fit X y flag patholog_dirn_array a b quant s =
     (case first_two_diagnoses_h X y s of
        (s1, Inl e) \<Rightarrow> (s1, Inl e)
      | (s1, Inr (X', y')) \<Rightarrow>
          fit_loop_h (kde_refs X' y' flag patholog_dirn_array a b quant) fit
            [0..<n_biomarkers (tables s1 ! X')] [] s1)"

text \<open>\<^verbatim>\<open>fit_all_kde_models_plus\<close>: as before, with \<^verbatim>\<open>alphas[i]\<close> and \<^verbatim>\<open>betas[i]\<close> read when
  the model is built, after the two arrays were made.\<close>

definition kde_plus_refs ::
  "addr \<Rightarrow> addr \<Rightarrow> bool \<Rightarrow> int list option \<Rightarrow> pyval \<Rightarrow> pyval \<Rightarrow> real \<Rightarrow> nat \<Rightarrow> store \<Rightarrow>
   store \<times> (py_error + kde_fit_refs)" where
  "kde_plus_refs X y flag patholog_dirn_array alphas betas quant i s =
     (case dirn_getitem patholog_dirn_array i of
        Inl e \<Rightarrow> (s, Inl e)
      | Inr dirn \<Rightarrow>
          let bio_X = Column X i;
              (bio_y, s1) = new_labels (compress (not_nan (read_view s bio_X)) (labels s ! y)) s;
              (bio_X, s2) = new_floats (present (read_view s1 bio_X)) s1
          in (case subscript alphas i of
                Inl e \<Rightarrow> (s2, Inl e)
              | Inr a \<Rightarrow>
                  (case subscript betas i of
                     Inl e \<Rightarrow> (s2, Inl e)
                   | Inr b \<Rightarrow>
                       (s2, Inr \<lparr>bio_X_at = bio_X, bio_y_at = bio_y, alpha_arg = a,
                                 beta_arg = b, fixed_controls_arg = flag, dirn_arg = dirn,
                                 quantile_arg = quant\<rparr>))))"

definition fit_all_kde_models_plus_h ::
  "(kde_fit_refs \<Rightarrow> store \<Rightarrow> store \<times> (py_error + 'm)) \<Rightarrow> addr \<Rightarrow> addr \<Rightarrow> bool \<Rightarrow>
   int list option \<Rightarrow> pyval \<Rightarrow> pyval \<Rightarrow> real \<Rightarrow> store \<Rightarrow> store \<times> (py_error + 'm list)" where
  "fit_all_kde_models_plus_h fit X y flag patholog_dirn_array alphas betas quant s =
     (case first_two_diagnoses_h X y s of
        (s1, Inl e) \<Rightarrow> (s1, Inl e)
      | (s1, Inr (X', y')) \<Rightarrow>
          (let n = n_biomarkers (tables s1 ! X');
               alphas = resolve_alphas n alphas;
               betas = resolve_betas n alphas betas
           in fit_loop_h (kde_plus_refs X' y' flag patholog_dirn_array alphas betas quant) fit
                [0..<n] [] s1))"

subsection \<open>The probability tensor\<close>

text \<open>
  A model's \<^verbatim>\<open>probability\<close> is handed the address of a new array, \<^verbatim>\<open>X[nan_mask, i]\<close>, and
  returns the address of its answer; it may change the store.  \<^verbatim>\<open>prob_mat\<close> is a new
  tensor, written in place.
\<close>

type_synonym model_h = "addr \<Rightarrow> store \<Rightarrow> store \<times> (py_error + addr)"

fun prob_loop_h ::
  "addr \<Rightarrow> model_h list \<Rightarrow> nat list \<Rightarrow> addr \<Rightarrow> store \<Rightarrow> store \<times> (py_error + addr)" where
  "prob_loop_h X mixture_models [] prob_mat s = (s, Inr prob_mat)"
| "prob_loop_h X mixture_models (i # is) prob_mat s =
     (let nan_mask = not_nan (read_view s (Column X i)) in
      case getitem mixture_models i of
        Inl e \<Rightarrow> (s, Inl e)
      | Inr mm \<Rightarrow>
          let (arg, s1) = new_floats (present (read_view s (Column X i))) s in
          (case mm arg s1 of
             (s2, Inl e) \<Rightarrow> (s2, Inl e)
           | (s2, Inr probs) \<Rightarrow>
               (case assign_masked nan_mask i 0 (floats s2 ! probs) (tensors s2 ! prob_mat) of
                  Inl e \<Rightarrow> (s2, Inl e)
                | Inr pm1 \<Rightarrow>
                    prob_loop_h X mixture_models is prob_mat
                      (s2\<lparr>tensors := (tensors s2)
                            [prob_mat := assign_const (map Not nan_mask) i 0 (1/2) pm1]\<rparr>))))"

definition get_prob_mat_h :: "addr \<Rightarrow> model_h list \<Rightarrow> store \<Rightarrow> store \<times> (py_error + addr)" where
  "get_prob_mat_h X mixture_models s =
     (let (prob_mat, s1) =
            new_tensor (zeros (n_particp (tables s ! X)) (n_biomarkers (tables s ! X)) 2) s
      in case prob_loop_h X mixture_models [0..<n_biomarkers (tables s ! X)] prob_mat s1 of
           (s2, Inl e) \<Rightarrow> (s2, Inl e)
         | (s2, Inr pm) \<Rightarrow>
             (s2\<lparr>tensors := (tensors s2)[pm := complement (tensors s2 ! pm)]\<rparr>, Inr pm))"

subsection \<open>Notions used to state what is left unchanged\<close>

text \<open>Every array of \<open>s0\<close> is still in \<open>s\<close>, at its address and with its content.\<close>

definition keeps :: "store \<Rightarrow> store \<Rightarrow> bool" where
  "keeps s0 s =
     (take (length (tables s0)) (tables s) = tables s0 \<and>
      take (length (labels s0)) (labels s) = labels s0 \<and>
      take (length (floats s0)) (floats s) = floats s0 \<and>
      take (length (tensors s0)) (tensors s) = tensors s0)"

text \<open>
  What is assumed of the mixture models, which are not part of this module: a call writes
  only into the arrays it is handed (and may make new arrays).  For \<open>fit\<close> these are the
  measurements and the labels, for \<^verbatim>\<open>probability\<close> the array of values.
\<close>

definition fit_writes_only_arguments ::
  "(('a fit_refs_scheme) \<Rightarrow> store \<Rightarrow> store \<times> (py_error + 'm)) \<Rightarrow> bool" where
  "fit_writes_only_arguments fit =
     (\<forall>a s. take (length (tables s)) (tables (fst (fit a s))) = tables s \<and>
            take (length (tensors s)) (tensors (fst (fit a s))) = tensors s \<and>
            take (length (labels s)) (labels (fst (fit a s)))
              = (labels s)[bio_y_at a := labels (fst (fit a s)) ! bio_y_at a] \<and>
            take (length (floats s)) (floats (fst (fit a s)))
              = (floats s)[bio_X_at a := floats (fst (fit a s)) ! bio_X_at a])"

definition probability_writes_only_argument :: "model_h \<Rightarrow> bool" where
  "probability_writes_only_argument mm =
     (\<forall>a s. take (length (tables s)) (tables (fst (mm a s))) = tables s \<and>
            take (length (tensors s)) (tensors (fst (mm a s))) = tensors s \<and>
            take (length (labels s)) (labels (fst (mm a s))) = labels s \<and>
            take (length (floats s)) (floats (fst (mm a s)))
              = (floats s)[a := floats (fst (mm a s)) ! a])"

subsection \<open>Notions used to state the properties of the store model\<close>

text \<open>What making the arguments of a call does to the store: it only adds arrays, and the two
  arrays it hands over are among the added ones.\<close>

definition makes_new_arguments ::
  "(nat \<Rightarrow> store \<Rightarrow> store \<times> (py_error + ('a fit_refs_scheme))) \<Rightarrow> bool" where
  "makes_new_arguments args =
     (\<forall>i s. keeps s (fst (args i s)) \<and>
        (\<forall>a. snd (args i s) = Inr a \<longrightarrow>
             length (floats s) \<le> bio_X_at a \<and> length (labels s) \<le> bio_y_at a))"

text \<open>The caller's table and label vector have the content they had.\<close>

definition same_inputs :: "addr \<Rightarrow> addr \<Rightarrow> store \<Rightarrow> store \<Rightarrow> bool" where
  "same_inputs X y s s' = (tables s' ! X = tables s ! X \<and> labels s' ! y = labels s ! y)"

text \<open>Collaborators that do write: a \<open>fit\<close> that empties both arrays it is handed, and a
  \<^verbatim>\<open>probability\<close> that answers in place, overwriting its argument with zeros.\<close>

definition overwriting_fit :: "('a fit_refs_scheme) \<Rightarrow> store \<Rightarrow> store \<times> (py_error + unit)" where
  "overwriting_fit a s =
     (s\<lparr>labels := (labels s)[bio_y_at a := []], floats := (floats s)[bio_X_at a := []]\<rparr>,
      Inr ())"

definition overwriting_model :: model_h where
  "overwriting_model a s = (s\<lparr>floats := (floats s)[a := map (\<lambda>x. 0) (floats s ! a)]\<rparr>, Inr a)"

text \<open>A store that holds the example table and labels and nothing else.\<close>

abbreviation example_store :: store where
  "example_store \<equiv> \<lparr>tables = [fit_table], labels = [fit_labels], floats = [], tensors = []\<rparr>"

text \<open>Collaborators that do not touch the store: \<open>fit\<close> and \<^verbatim>\<open>probability\<close> as functions of the
  contents of the arrays they are handed (the answer of \<^verbatim>\<open>probability\<close> is a new array).\<close>

definition pure_fit ::
  "(fit_args \<Rightarrow> py_error + 'm) \<Rightarrow> fit_refs \<Rightarrow> store \<Rightarrow> store \<times> (py_error + 'm)" where
  "pure_fit fit a s = (s, fit \<lparr>bio_X = floats s ! bio_X_at a, bio_y = labels s ! bio_y_at a\<rparr>)"

definition pure_kde_fit ::
  "(kde_fit_args \<Rightarrow> py_error + 'm) \<Rightarrow> kde_fit_refs \<Rightarrow> store \<Rightarrow> store \<times> (py_error + 'm)" where
  "pure_kde_fit fit a s =
     (s, fit \<lparr>bio_X = floats s ! bio_X_at a, bio_y = labels s ! bio_y_at a,
              alpha = alpha_arg a, beta = beta_arg a,
              implement_fixed_controls = fixed_controls_arg a,
              patholog_dirn = dirn_arg a, outlier_controls_quantile = quantile_arg a\<rparr>)"

definition pure_model :: "model \<Rightarrow> model_h" where
  "pure_model mm a s =
     (case mm (floats s ! a) of
        Inl e \<Rightarrow> (s, Inl e)
      | Inr probs \<Rightarrow> (snd (new_floats probs s), Inr (fst (new_floats probs s))))"

text \<open>The arguments of a call as the contents of the arrays, and the fact that two addresses
  hold a given table and label vector.\<close>

definition read_fit_args :: "store \<Rightarrow> fit_refs \<Rightarrow> fit_args" where
  "read_fit_args s a = \<lparr>bio_X = floats s ! bio_X_at a, bio_y = labels s ! bio_y_at a\<rparr>"

definition read_kde_fit_args :: "store \<Rightarrow> kde_fit_refs \<Rightarrow> kde_fit_args" where
  "read_kde_fit_args s a =
     \<lparr>bio_X = floats s ! bio_X_at a, bio_y = labels s ! bio_y_at a,
      alpha = alpha_arg a, beta = beta_arg a,
      implement_fixed_controls = fixed_controls_arg a,
      patholog_dirn = dirn_arg a, outlier_controls_quantile = quantile_arg a\<rparr>"

definition holds :: "addr \<Rightarrow> table \<Rightarrow> addr \<Rightarrow> int list \<Rightarrow> store \<Rightarrow> bool" where
  "holds X Xv y yv s =
     (X < length (tables s) \<and> tables s ! X = Xv \<and> y < length (labels s) \<and> labels s ! y = yv)"

section \<open>Properties of the float64 arithmetic\<close>

lemma bit_length_bounds:
  "0 < n \<Longrightarrow> 1 \<le> bit_length n \<and> 2 ^ nat (bit_length n - 1) \<le> n \<and> n < 2 ^ nat (bit_length n)"
proof (induction n rule: bit_length.induct)
  case (1 n)
  show ?case
  proof (cases "n = 1")
    case True
    then show ?thesis by (simp add: bit_length.simps [of 1] bit_length.simps [of 0])
  next
    case False
    with "1.prems" have h: "0 < n div 2" by simp
    from "1.IH" [OF _ h] "1.prems"
    have b: "1 \<le> bit_length (n div 2)"
      and lo: "2 ^ nat (bit_length (n div 2) - 1) \<le> n div 2"
      and hi: "n div 2 < 2 ^ nat (bit_length (n div 2))" by simp_all
    have e: "bit_length n = 1 + bit_length (n div 2)"
      using "1.prems" by (simp add: bit_length.simps [of n])
    have n1: "nat (bit_length n - 1) = Suc (nat (bit_length (n div 2) - 1))"
      using e b by simp
    have n2: "nat (bit_length n) = Suc (nat (bit_length (n div 2)))"
      using e b by simp
    have "2 * (n div 2) \<le> n" by simp
    moreover have "n < 2 * (n div 2) + 2" by presburger
    ultimately show ?thesis
      unfolding n1 n2 using lo hi e b by simp
  qed
qed




lemma powi_nat: "(2::real) powi (int K) = 2 ^ K"
  by simp

lemma powi_neg_nat: "(2::real) powi (- int K) = 1 / 2 ^ K"
  by (simp add: power_int_minus field_simps)

lemma floor_bit_length:
  assumes "1 \<le> (y::real)"
  obtains K where "bit_length \<lfloor>y\<rfloor> - 1 = int K" and "2 ^ K \<le> y" and "y < 2 ^ Suc K"
proof -
  let ?n = "\<lfloor>y\<rfloor>"
  have n: "0 < ?n" using assms by simp
  from bit_length_bounds [OF n]
  have b: "1 \<le> bit_length ?n" and lo: "2 ^ nat (bit_length ?n - 1) \<le> ?n"
    and hi: "?n < 2 ^ nat (bit_length ?n)" by simp_all
  let ?K = "nat (bit_length ?n - 1)"
  have K: "bit_length ?n - 1 = int ?K" using b by simp
  have S: "nat (bit_length ?n) = Suc ?K" using b by simp
  have "(2::real) ^ ?K = of_int (2 ^ ?K)" by simp
  also have "\<dots> \<le> of_int ?n" using lo by (simp only: of_int_le_iff)
  also have "\<dots> \<le> y" by simp
  finally have 1: "2 ^ ?K \<le> y" .
  have "?n + 1 \<le> 2 ^ Suc ?K" using hi unfolding S by simp
  then have "(of_int (?n + 1) :: real) \<le> of_int (2 ^ Suc ?K)" by (simp only: of_int_le_iff)
  then have "of_int ?n + 1 \<le> (2::real) ^ Suc ?K" by simp
  moreover have "y < of_int ?n + 1" by linarith
  ultimately have 2: "y < 2 ^ Suc ?K" by linarith
  from K 1 2 show ?thesis by (rule that)
qed

lemma expo_bounds:
  assumes "0 < x"
  shows "2 powi expo x \<le> x \<and> x < 2 powi (expo x + 1)"
proof (cases "1 \<le> x")
  case True
  from floor_bit_length [OF True] obtain K where
    K: "bit_length \<lfloor>x\<rfloor> - 1 = int K" and lo: "2 ^ K \<le> x" and hi: "x < 2 ^ Suc K" by blast
  have e: "expo x = int K" using True K by (simp add: expo_def)
  have "int K + 1 = int (Suc K)" by simp
  then have "(2::real) powi (int K + 1) = 2 ^ Suc K" by (simp only: powi_nat)
  then show ?thesis unfolding e using lo hi by simp
next
  case False
  let ?y = "1 / x"
  have y: "1 \<le> ?y" using assms False by simp
  from floor_bit_length [OF y] obtain K where
    K: "bit_length \<lfloor>?y\<rfloor> - 1 = int K" and lo: "2 ^ K \<le> ?y" and hi: "?y < 2 ^ Suc K" by blast
  have xy: "x = 1 / ?y" by simp
  have ex: "expo x = (if ?y = 2 ^ K then - int K else - int K - 1)"
    using False by (simp add: expo_def Let_def K)
  show ?thesis
  proof (cases "?y = 2 ^ K")
    case True
    then have e: "expo x = - int K" using ex by simp
    have x: "x = 1 / 2 ^ K" using True xy by simp
    have "(2::real) powi (- int K + 1) = 2 powi (- int K) * 2 powi 1"
      by (rule power_int_add) simp
    then have p1: "(2::real) powi (- int K + 1) = 2 * (1 / 2 ^ K)"
      by (simp only: powi_neg_nat) simp
    have "x < 2 * x" using assms by simp
    then show ?thesis unfolding e p1 powi_neg_nat using x by simp
  next
    case ne: False
    then have e: "expo x = - int K - 1" using ex by simp
    have "- int K - 1 = - int (Suc K)" by simp
    then have p0: "(2::real) powi (- int K - 1) = 1 / 2 ^ Suc K" by (simp only: powi_neg_nat)
    have p1: "(2::real) powi (- int K - 1 + 1) = 1 / 2 ^ K" by (simp add: powi_neg_nat)
    have a: "1 / 2 ^ Suc K < x"
      using hi assms by (simp add: field_simps)
    have "(2::real) ^ K < ?y" using lo ne by simp
    then have b: "x < 1 / 2 ^ K"
      using assms by (simp add: field_simps)
    show ?thesis unfolding e p0 p1 using a b by simp
  qed
qed

lemma expo_unique:
  assumes "0 < x" and "2 powi e \<le> x" and "x < 2 powi (e + 1)"
  shows "expo x = e"
proof -
  from expo_bounds [OF assms(1)]
  have lo: "2 powi expo x \<le> x" and hi: "x < 2 powi (expo x + 1)" by simp_all
  have 1: "expo x < e + 1"
  proof (rule ccontr)
    assume "\<not> expo x < e + 1"
    then have "(2::real) powi (e + 1) \<le> 2 powi expo x" by (intro power_int_increasing) simp_all
    with lo assms(3) show False by simp
  qed
  have 2: "e < expo x + 1"
  proof (rule ccontr)
    assume "\<not> e < expo x + 1"
    then have "(2::real) powi (expo x + 1) \<le> 2 powi e" by (intro power_int_increasing) simp_all
    with hi assms(2) show False by simp
  qed
  from 1 2 show ?thesis by simp
qed


lemma round_even_near:
  assumes "\<bar>q - of_int k\<bar> < 1/2 \<or> (\<bar>q - of_int k\<bar> = 1/2 \<and> even k)"
  shows "round_even q = k"
proof -
  let ?f = "\<lfloor>q\<rfloor>"
  have f: "of_int ?f \<le> q" "q < of_int ?f + 1" by linarith+
  have "k = ?f \<or> k = ?f + 1"
  proof -
    have "of_int k - 1 < q" "q < of_int k + 1" using assms by linarith+
    then have "of_int k < of_int ?f + (2::real)" "of_int ?f < of_int k + (1::real)"
      using f by linarith+
    then have "k < ?f + 2" "?f < k + 1"
      by (metis of_int_add of_int_less_iff of_int_numeral, metis of_int_1 of_int_add of_int_less_iff)
    then show ?thesis by linarith
  qed
  then show ?thesis
  proof
    assume k: "k = ?f"
    then have d: "q - of_int ?f < 1/2 \<or> (q - of_int ?f = 1/2 \<and> even ?f)"
      using assms f by auto
    then show ?thesis unfolding round_even_def Let_def using k by auto
  next
    assume k: "k = ?f + 1"
    then have d: "1/2 < q - of_int ?f \<or> (q - of_int ?f = 1/2 \<and> odd ?f)"
      using assms f by auto
    then show ?thesis unfolding round_even_def Let_def using k by auto
  qed
qed

lemma round_even_int: "round_even (of_int k) = k"
  by (rule round_even_near) simp

lemma round_even_error: "\<bar>of_int (round_even q) - q\<bar> \<le> 1/2"
proof -
  have f: "of_int \<lfloor>q\<rfloor> \<le> q" "q < of_int \<lfloor>q\<rfloor> + 1" by linarith+
  then show ?thesis unfolding round_even_def Let_def by auto
qed

text \<open>Rounding at a known exponent.\<close>

lemma fl_at:
  assumes "0 < x" and "2 powi e \<le> x" and "x < 2 powi (e + 1)" and "- 1022 \<le> e"
  shows "fl x = of_int (round_even (x / 2 powi (e - 52))) * 2 powi (e - 52)"
proof -
  have e: "expo \<bar>x\<bar> = e" using assms by (simp add: expo_unique)
  have m: "max (e - 52) (- 1074) = e - 52" using assms(4) by simp
  have "x \<noteq> 0" using assms(1) by simp
  then show ?thesis unfolding fl_def Let_def e m by (simp only: if_False)
qed

lemma fl_exact:
  assumes "x = of_int k * 2 powi j" and "0 < x" and "x < 1" and "- 53 \<le> j"
  shows "fl x = x"
proof -
  define u where "u = max (expo \<bar>x\<bar> - 52) (- 1074)"
  define U where "U = (2::real) powi u"
  have "expo x < 0"
  proof (rule ccontr)
    assume "\<not> expo x < 0"
    then have "(2::real) powi 0 \<le> 2 powi expo x" by (intro power_int_increasing) simp_all
    with expo_bounds [OF assms(2)] assms(3) show False by simp
  qed
  then have u: "u \<le> j" using assms(2,4) by (simp add: u_def)
  have U: "U \<noteq> 0" by (simp add: U_def)
  have "(2::real) powi j = 2 powi (j - u) * 2 powi u"
    using power_int_add [of "2::real" "j - u" u] by simp
  moreover have "(2::real) powi (j - u) = of_int (2 ^ nat (j - u))"
    using u by (simp add: power_int_def)
  ultimately have pj: "(2::real) powi j = of_int (2 ^ nat (j - u)) * U"
    by (simp add: U_def)
  have "x / U = of_int k * of_int (2 ^ nat (j - u)) * U / U"
    unfolding assms(1) pj by (simp add: mult.assoc)
  also have "\<dots> = of_int (k * 2 ^ nat (j - u))" using U by simp
  finally have q: "x / U = of_int (k * 2 ^ nat (j - u))" .
  have "fl x = of_int (round_even (x / U)) * U"
    using assms(2) by (simp add: fl_def Let_def u_def U_def)
  also have "\<dots> = x / U * U" unfolding q round_even_int ..
  also have "\<dots> = x" using U by simp
  finally show ?thesis .
qed

lemma abs_unscaled: "0 < c \<Longrightarrow> \<bar>a - b * c\<bar> / c = \<bar>a / c - (b::real)\<bar>"
proof -
  assume c: "0 < c"
  then have "a / c - b = (a - b * c) / c" by (simp add: field_simps)
  then show ?thesis using c by (simp only: abs_divide)
qed

lemma abs_scaled: "0 \<le> c \<Longrightarrow> \<bar>z * c - c\<bar> = \<bar>z - 1\<bar> * (c::real)"
proof -
  assume c: "0 \<le> c"
  have "z * c - c = (z - 1) * c" by (simp add: algebra_simps)
  then show ?thesis using c by (simp add: abs_mult)
qed

lemma fl_near_one:
  assumes "\<bar>z - 1\<bar> \<le> 1 / 2 ^ 54"
  shows "fl z = 1"
proof (cases "1 \<le> z")
  case True
  have z: "0 < z" "2 powi 0 \<le> z" "z < 2 powi (0 + 1)" using True assms by simp_all
  have "\<bar>z * 2 ^ 52 - of_int (2 ^ 52)\<bar> = \<bar>z - 1\<bar> * 2 ^ 52" using abs_scaled [of "2 ^ 52" z] by simp
  also have "\<dots> \<le> 1 / 2 ^ 54 * 2 ^ 52" using assms by (intro mult_right_mono) simp_all
  also have "\<dots> < 1 / 2" by simp
  finally have "round_even (z * 2 ^ 52) = 2 ^ 52" by (intro round_even_near) simp
  moreover have "z / 2 powi (0 - 52) = z * 2 ^ 52" by (simp add: power_int_minus field_simps)
  ultimately show ?thesis
    using fl_at [OF z] by (simp add: power_int_minus)
next
  case False
  have "(1::real) / 2 ^ 54 \<le> 1 / 2" by simp
  then have z: "0 < z" "2 powi (- 1) \<le> z" "z < 2 powi (- 1 + 1)" using False assms by simp_all
  have "\<bar>z * 2 ^ 53 - of_int (2 ^ 53)\<bar> = \<bar>z - 1\<bar> * 2 ^ 53" using abs_scaled [of "2 ^ 53" z] by simp
  also have "\<dots> \<le> 1 / 2 ^ 54 * 2 ^ 53" using assms by (intro mult_right_mono) simp_all
  also have "\<dots> = 1 / 2" by simp
  finally have "\<bar>z * 2 ^ 53 - of_int (2 ^ 53)\<bar> \<le> 1 / 2" .
  then have "round_even (z * 2 ^ 53) = 2 ^ 53" by (intro round_even_near) auto
  moreover have "z / 2 powi (- 1 - 52) = z * 2 ^ 53" by (simp add: power_int_minus field_simps)
  ultimately show ?thesis
    using fl_at [OF z] by (simp add: power_int_minus)
qed

lemma fl_upper_half:
  assumes "1/2 \<le> t" and "t < 1"
  shows "fl t = of_int (round_even (t * 2 ^ 53)) / 2 ^ 53"
proof -
  have t: "0 < t" "2 powi (- 1) \<le> t" "t < 2 powi (- 1 + 1)" using assms by simp_all
  have "t / 2 powi (- 1 - 52) = t * 2 ^ 53" by (simp add: power_int_minus field_simps)
  then show ?thesis using fl_at [OF t] by (simp add: power_int_minus field_simps)
qed

lemma float_complement_sum:
  assumes "fl x = x" and "0 \<le> x" and "x \<le> 1"
  shows "fadd x (fsub 1 x) = 1"
proof -
  have one: "fl 1 = 1" by (rule fl_near_one) simp
  consider "x = 0" | "x = 1" | "1/2 \<le> x" "x < 1" | "0 < x" "x < 1/2"
    using assms(2,3) by linarith
  then show ?thesis
  proof cases
    case 1
    then show ?thesis by (simp add: fadd_def fsub_def one)
  next
    case 2
    then have "fsub 1 x = 0" by (simp add: fsub_def fl_def)
    then show ?thesis using 2 by (simp add: fadd_def one)
  next
    case 3
    let ?m = "round_even (x * 2 ^ 53)"
    have x: "x = of_int ?m / 2 ^ 53" using fl_upper_half [OF 3] assms(1) by simp
    have "1 - x = of_int (2 ^ 53 - ?m) / 2 ^ 53" by (subst x) (simp add: field_simps)
    also have "\<dots> = of_int (2 ^ 53 - ?m) * 2 powi (- 53)" by (simp add: power_int_minus field_simps)
    finally have r: "1 - x = of_int (2 ^ 53 - ?m) * 2 powi (- 53)" .
    have "fl (1 - x) = 1 - x" using 3 by (intro fl_exact [OF r]) simp_all
    then show ?thesis by (simp add: fadd_def fsub_def one)
  next
    case 4
    let ?t = "1 - x"
    have t: "1/2 \<le> ?t" "?t < 1" using 4 by simp_all
    let ?r = "round_even (?t * 2 ^ 53)"
    have y: "fl ?t = of_int ?r / 2 ^ 53" by (rule fl_upper_half [OF t])
    have "\<bar>of_int ?r - ?t * 2 ^ 53\<bar> \<le> 1/2" by (rule round_even_error)
    then have "\<bar>of_int ?r - ?t * 2 ^ 53\<bar> / 2 ^ 53 \<le> (1/2) / 2 ^ 53"
      by (intro divide_right_mono) simp_all
    moreover have "\<bar>of_int ?r - ?t * 2 ^ 53\<bar> / 2 ^ 53 = \<bar>of_int ?r / 2 ^ 53 - ?t\<bar>"
      by (rule abs_unscaled) simp
    ultimately have "\<bar>fl ?t - ?t\<bar> \<le> 1 / 2 ^ 54" unfolding y by simp
    then have "\<bar>(x + fl ?t) - 1\<bar> \<le> 1 / 2 ^ 54" by (simp add: algebra_simps)
    then show ?thesis unfolding fadd_def fsub_def by (rule fl_near_one)
  qed
qed

section \<open>Properties of the probability tensor\<close>

lemma length_scatter: "length (scatter m vs i s rs) = length rs"
  by (induction m vs i s rs rule: scatter.induct) auto

lemma rank_Cons: "rank (b # m) (Suc p) = (if b then Suc (rank m p) else rank m p)"
  by (simp add: rank_def count_true_def)

lemma rank_0: "rank m 0 = 0"
  by (simp add: rank_def count_true_def)

lemma count_true_Cons: "count_true (b # m) = (if b then Suc (count_true m) else count_true m)"
  by (simp add: count_true_def)

lemma scatter_nth:
  "length m = length rs \<Longrightarrow> length vs = count_true m \<Longrightarrow> p < length rs \<Longrightarrow>
   scatter m vs i s rs ! p = (if m ! p then set_slot i s (vs ! rank m p) (rs ! p) else rs ! p)"
  apply (induction m vs i s rs arbitrary: p rule: scatter.induct)
  subgoal for m v vs i s r rs p by (cases p) (simp_all add: rank_0 rank_Cons count_true_Cons)
  subgoal for m vs i s r rs p by (cases p) (simp_all add: rank_0 rank_Cons count_true_Cons)
  by (simp_all add: count_true_Cons)


lemma length_broadcast_to: "broadcast_to k vs = Inr ws \<Longrightarrow> length ws = k"
  by (auto simp: broadcast_to_def split: if_splits)

lemma count_true_not_nan_Cons:
  "count_true (not_nan (c # cs)) = (if c = None then count_true (not_nan cs) else Suc (count_true (not_nan cs)))"
  by (simp add: not_nan_def count_true_def)

lemma length_present: "length (present c) = count_true (not_nan c)"
  by (induction c rule: present.induct) (simp_all add: not_nan_def count_true_def)

lemma rank_lt_count: "p < length m \<Longrightarrow> m ! p \<Longrightarrow> rank m p < count_true m"
proof (induction m arbitrary: p)
  case Nil
  then show ?case by simp
next
  case (Cons b m)
  then show ?case
    by (cases p) (auto simp: rank_0 rank_Cons count_true_Cons)
qed

lemma present_rank:
  "p < length c \<Longrightarrow> c ! p = Some v \<Longrightarrow> present c ! rank (not_nan c) p = v"
proof (induction c arbitrary: p rule: present.induct)
  case 1
  then show ?case by simp
next
  case (2 c)
  then show ?case
    by (cases p) (simp_all add: not_nan_def rank_Cons)
next
  case (3 w c)
  then show ?case
    by (cases p) (simp_all add: not_nan_def rank_Cons rank_0)
qed

lemma set_slot_same:
  "i < length r \<Longrightarrow> s < length (r ! i) \<Longrightarrow> set_slot i s v r ! i ! s = v"
  by (simp add: set_slot_def)

lemma set_slot_other: "b \<noteq> i \<Longrightarrow> set_slot i s v r ! b = r ! b"
  by (simp add: set_slot_def)

lemma length_set_slot: "length (set_slot i s v r) = length r"
  by (simp add: set_slot_def)

lemma length_set_slot_nth: "length (set_slot i s v r ! b) = length (r ! b)"
  by (cases "b = i"; cases "i < length r") (simp_all add: set_slot_def not_less list_update_beyond)


lemma column_written:
  assumes "length c = length pm" "p < length pm" "length ws = count_true (not_nan c)"
  shows "assign_const (map Not (not_nan c)) i 0 (1/2) (scatter (not_nan c) ws i 0 pm) ! p
         = set_slot i 0 (column_value c ws p) (pm ! p)"
proof -
  have l: "length (not_nan c) = length pm" using assms by (simp add: not_nan_def)
  have n: "not_nan c ! p = (c ! p \<noteq> None)" using assms by (simp add: not_nan_def)
  have 1: "scatter (not_nan c) ws i 0 pm ! p =
        (if c ! p \<noteq> None then set_slot i 0 (ws ! rank (not_nan c) p) (pm ! p) else pm ! p)"
    using scatter_nth [OF l assms(3) assms(2)] n by simp
  have 2: "assign_const (map Not (not_nan c)) i 0 (1/2) (scatter (not_nan c) ws i 0 pm) ! p =
        (if c ! p = None then set_slot i 0 (1/2) (scatter (not_nan c) ws i 0 pm ! p)
         else scatter (not_nan c) ws i 0 pm ! p)"
    unfolding assign_const_def
    using scatter_nth [of "map Not (not_nan c)" "scatter (not_nan c) ws i 0 pm"
        "replicate (count_true (map Not (not_nan c))) (1/2)" p i 0] l assms(2) n
    by (simp add: length_scatter rank_lt_count)
  show ?thesis
    unfolding 2 1 by (auto simp: column_value_def)
qed


lemma prob_loop_Cons_Inr:
  assumes "prob_loop X mms (i # is) calls pm = (calls', Inr T)"
  obtains ws where "column_probs X mms i = Inr ws"
    and "prob_loop X mms is (calls @ [(i, present (col X i))])
           (assign_const (map Not (not_nan (col X i))) i 0 (1/2)
              (scatter (not_nan (col X i)) ws i 0 pm)) = (calls', Inr T)"
  using assms
  by (auto simp: column_probs_def assign_masked_def Let_def split: sum.splits)

lemma prob_loop_invariant:
  "prob_loop X mms is calls pm = (calls', Inr T) \<Longrightarrow> length pm = length (rows X) \<Longrightarrow>
   length T = length pm \<and>
   calls' = calls @ map (\<lambda>i. (i, present (col X i))) is \<and>
   (\<forall>p<length pm. length (T ! p) = length (pm ! p) \<and>
      (\<forall>b. length (T ! p ! b) = length (pm ! p ! b) \<and>
           (b \<notin> set is \<longrightarrow> T ! p ! b = pm ! p ! b) \<and>
           (b \<in> set is \<longrightarrow> b < length (pm ! p) \<longrightarrow> 0 < length (pm ! p ! b) \<longrightarrow>
              (\<exists>ws. column_probs X mms b = Inr ws \<and>
                    T ! p ! b ! 0 = column_value (col X b) ws p))))"
proof (induction "is" arbitrary: calls pm)
  case Nil
  then show ?case by simp
next
  case (Cons i "is")
  from Cons.prems(1) obtain ws where ws: "column_probs X mms i = Inr ws"
    and rest: "prob_loop X mms is (calls @ [(i, present (col X i))])
           (assign_const (map Not (not_nan (col X i))) i 0 (1/2)
              (scatter (not_nan (col X i)) ws i 0 pm)) = (calls', Inr T)"
    by (rule prob_loop_Cons_Inr)
  let ?pm2 = "assign_const (map Not (not_nan (col X i))) i 0 (1/2)
              (scatter (not_nan (col X i)) ws i 0 pm)"
  have len2: "length ?pm2 = length pm"
    by (simp add: assign_const_def length_scatter)
  have lws: "length ws = count_true (not_nan (col X i))"
    using ws by (auto simp: column_probs_def length_broadcast_to split: sum.splits)
  have lc: "length (col X i) = length pm"
    using Cons.prems(2) by (simp add: col_def)
  have row: "?pm2 ! p = set_slot i 0 (column_value (col X i) ws p) (pm ! p)"
    if "p < length pm" for p
    using column_written [OF lc that lws] .
  note IH = Cons.IH [OF rest, unfolded len2, OF Cons.prems(2)]
  show ?case
  proof (intro conjI allI impI)
    show "length T = length pm" using IH by simp
    show "calls' = calls @ map (\<lambda>i. (i, present (col X i))) (i # is)" using IH by simp
  next
    fix p assume p: "p < length pm"
    show "length (T ! p) = length (pm ! p)"
      using IH p row [OF p] by (simp add: length_set_slot)
  next
    fix p b assume p: "p < length pm"
    show "length (T ! p ! b) = length (pm ! p ! b)"
      using IH p row [OF p] by (simp add: length_set_slot_nth)
  next
    fix p b assume p: "p < length pm" and b: "b \<notin> set (i # is)"
    then show "T ! p ! b = pm ! p ! b"
      using IH row [OF p] by (simp add: set_slot_other)
  next
    fix p b assume p: "p < length pm" and b: "b \<in> set (i # is)"
      and bl: "b < length (pm ! p)" and sl: "0 < length (pm ! p ! b)"
    show "\<exists>ws. column_probs X mms b = Inr ws \<and> T ! p ! b ! 0 = column_value (col X b) ws p"
    proof (cases "b \<in> set is")
      case True
      have l1: "length (?pm2 ! p) = length (pm ! p)"
        using row [OF p] by (simp add: length_set_slot)
      have l2: "length (?pm2 ! p ! b) = length (pm ! p ! b)"
        using row [OF p] by (simp add: length_set_slot_nth)
      from IH p have "b \<in> set is \<longrightarrow> b < length (?pm2 ! p) \<longrightarrow> 0 < length (?pm2 ! p ! b) \<longrightarrow>
              (\<exists>ws. column_probs X mms b = Inr ws \<and>
                    T ! p ! b ! 0 = column_value (col X b) ws p)"
        by blast
      then show ?thesis
        using True bl sl unfolding l1 l2 by blast
    next
      case False
      with b have bi: "b = i" by simp
      have "T ! p ! b = ?pm2 ! p ! b" using IH p False by simp
      then have "T ! p ! b ! 0 = column_value (col X i) ws p"
        using row [OF p] bl sl bi by (simp add: set_slot_same)
      then show ?thesis using ws bi by simp
    qed
  qed
qed


lemma zeros_shape:
  "length (zeros n b k) = n"
  "p < n \<Longrightarrow> length (zeros n b k ! p) = b"
  "p < n \<Longrightarrow> i < b \<Longrightarrow> length (zeros n b k ! p ! i) = k"
  by (simp_all add: zeros_def)

lemma complement_nth:
  "p < length pm \<Longrightarrow> b < length (pm ! p) \<Longrightarrow> length (pm ! p ! b) = 2 \<Longrightarrow>
   complement pm ! p ! b = [pm ! p ! b ! 0, fsub 1 (pm ! p ! b ! 0)]"
proof -
  assume p: "p < length pm" and b: "b < length (pm ! p)" and l: "length (pm ! p ! b) = 2"
  from l obtain x0 x1 where c: "pm ! p ! b = [x0, x1]"
    by (cases "pm ! p ! b"; cases "tl (pm ! p ! b)") auto
  show ?thesis using p b by (simp add: complement_def c)
qed

lemma get_prob_mat_Inr:
  assumes "snd (get_prob_mat X mms) = Inr T"
  shows "fst (get_prob_mat X mms) = map (\<lambda>i. (i, present (col X i))) [0..<n_biomarkers X]"
    and "p < n_particp X \<Longrightarrow> b < n_biomarkers X \<Longrightarrow>
         \<exists>ws. column_probs X mms b = Inr ws \<and>
              T ! p ! b = [column_value (col X b) ws p, fsub 1 (column_value (col X b) ws p)]"
proof -
  let ?z = "zeros (n_particp X) (n_biomarkers X) 2"
  obtain calls r where loop: "prob_loop X mms [0..<n_biomarkers X] [] ?z = (calls, r)"
    by (cases "prob_loop X mms [0..<n_biomarkers X] [] ?z")
  with assms obtain pm where r: "r = Inr pm" and T: "T = complement pm"
    by (cases r) (auto simp: get_prob_mat_def)
  have lz: "length ?z = length (rows X)" by (simp add: zeros_shape n_particp_def)
  note inv = prob_loop_invariant [OF loop [unfolded r] lz]
  show "fst (get_prob_mat X mms) = map (\<lambda>i. (i, present (col X i))) [0..<n_biomarkers X]"
    using inv by (simp add: get_prob_mat_def loop r)
  assume p: "p < n_particp X" and b: "b < n_biomarkers X"
  then have pz: "p < length ?z" by (simp add: zeros_shape)
  have bs: "b \<in> set [0..<n_biomarkers X]" using b by simp
  have l1: "length (pm ! p) = n_biomarkers X"
    using inv pz p by (simp add: zeros_shape)
  have l2: "length (pm ! p ! b) = 2"
    using inv pz p b by (simp add: zeros_shape)
  from inv pz have "b \<in> set [0..<n_biomarkers X] \<longrightarrow> b < length (?z ! p) \<longrightarrow> 0 < length (?z ! p ! b) \<longrightarrow>
      (\<exists>ws. column_probs X mms b = Inr ws \<and> pm ! p ! b ! 0 = column_value (col X b) ws p)"
    by blast
  then obtain ws where ws: "column_probs X mms b = Inr ws"
    and v: "pm ! p ! b ! 0 = column_value (col X b) ws p"
    using bs p b by (auto simp: zeros_shape)
  have "T ! p ! b = [pm ! p ! b ! 0, fsub 1 (pm ! p ! b ! 0)]"
    unfolding T using complement_nth [of p pm b] inv pz l1 l2 b by simp
  then show "\<exists>ws. column_probs X mms b = Inr ws \<and>
              T ! p ! b = [column_value (col X b) ws p, fsub 1 (column_value (col X b) ws p)]"
    using ws v by simp
qed

lemma prob_loop_returns:
  "\<forall>i\<in>set is. \<exists>ws. column_probs X mms i = Inr ws \<Longrightarrow>
   \<exists>T. snd (prob_loop X mms is calls pm) = Inr T"
proof (induction "is" arbitrary: calls pm)
  case Nil
  then show ?case by simp
next
  case (Cons i "is")
  then obtain ws where "column_probs X mms i = Inr ws" by auto
  then show ?case
    using Cons.IH Cons.prems
    by (auto simp: column_probs_def assign_masked_def Let_def split: sum.splits)
qed

lemma get_prob_mat_returns:
  assumes "\<forall>i<n_biomarkers X. \<exists>ws. column_probs X mms i = Inr ws"
  shows "\<exists>T. snd (get_prob_mat X mms) = Inr T"
proof -
  let ?z = "zeros (n_particp X) (n_biomarkers X) 2"
  from assms have "\<forall>i\<in>set [0..<n_biomarkers X]. \<exists>ws. column_probs X mms i = Inr ws" by simp
  from prob_loop_returns [OF this, of "[]" ?z]
  obtain T where "snd (prob_loop X mms [0..<n_biomarkers X] [] ?z) = Inr T" by blast
  then show ?thesis
    by (cases "prob_loop X mms [0..<n_biomarkers X] [] ?z") (auto simp: get_prob_mat_def)
qed

lemma float64_unit: "fl x = x \<Longrightarrow> \<bar>x\<bar> \<le> 1 \<Longrightarrow> float64 x"
proof -
  assume f: "fl x = x" and u: "\<bar>x\<bar> \<le> 1"
  have "(1::real) < 2 ^ 1024" by (rule one_less_power) simp_all
  with u have "\<bar>x\<bar> < 2 ^ 1024" by linarith
  with f show ?thesis unfolding float64_def by (rule conjI)
qed

text \<open>
  The subtraction does round: an output of \<open>2 powi (- 60)\<close> gets the complement 1, and
  the sum of the two slots is still 1.  The two slots need not add up to one when a model
  returns a number that is not a probability: an output of \<open>10 ^ 17\<close> gets
  \<open>- (10 ^ 17)\<close>, with sum 0.  (The models are identities here, so the outputs are the
  measurements.)
\<close>

lemma complement_is_rounded:
  "snd (get_prob_mat \<lparr>n_biomarkers = 2, rows = [[Some (1 / 2 ^ 60), Some (10 ^ 17)]]\<rparr>
          [Inr, Inr])
     = Inr [[[1 / 2 ^ 60, 1], [10 ^ 17, - (10 ^ 17)]]] \<and>
   fadd (1 / 2 ^ 60) 1 = 1 \<and> fadd (10 ^ 17) (- (10 ^ 17)) = 0"
  by code_simp

text \<open>
  C1.  In every tensor that \<^verbatim>\<open>get_prob_mat\<close> returns, for every patient \<open>p\<close> and biomarker
  \<open>b\<close>, slot 1 is the float64 difference of 1 and slot 0; and where slot 0 holds a
  probability, that is a float64 value between 0 and 1, the float64 sum of the two slots
  is exactly 1.
\<close>

theorem slots_are_complements:
  assumes "snd (get_prob_mat X mixture_models) = Inr T"
    and "p < n_particp X" and "b < n_biomarkers X"
    and "float64 (T ! p ! b ! 0)" and "0 \<le> T ! p ! b ! 0" and "T ! p ! b ! 0 \<le> 1"
  shows "T ! p ! b ! 1 = fsub 1 (T ! p ! b ! 0) \<and> fadd (T ! p ! b ! 0) (T ! p ! b ! 1) = 1"
proof -
  from get_prob_mat_Inr(2) [OF assms(1-3)]
  have s: "T ! p ! b ! 1 = fsub 1 (T ! p ! b ! 0)" by auto
  have "fl (T ! p ! b ! 0) = T ! p ! b ! 0" using assms(4) by (simp add: float64_def)
  from float_complement_sum [OF this assms(5,6)] s show ?thesis by simp
qed

theorem slots_are_complements_witness:
  "snd (get_prob_mat example_table [Inr, Inr]) = Inr example_tensor \<and>
   1 < n_particp example_table \<and> 1 < n_biomarkers example_table \<and>
   float64 (example_tensor ! 1 ! 1 ! 0) \<and>
   0 \<le> example_tensor ! 1 ! 1 ! 0 \<and> example_tensor ! 1 ! 1 ! 0 \<le> 1 \<and>
   example_tensor ! 1 ! 1 ! 0 = 1/8 \<and> example_tensor ! 1 ! 1 ! 1 = 7/8 \<and>
   example_tensor ! 1 ! 1 ! 1 = fsub 1 (example_tensor ! 1 ! 1 ! 0) \<and>
   fadd (example_tensor ! 1 ! 1 ! 0) (example_tensor ! 1 ! 1 ! 1) = 1"
proof -
  have r: "snd (get_prob_mat example_table [Inr, Inr]) = Inr example_tensor" by code_simp
  have p: "1 < n_particp example_table" by (simp add: n_particp_def)
  have b: "1 < n_biomarkers example_table" by simp
  have "fl (1/8) = 1/8" by code_simp
  then have f: "float64 (example_tensor ! 1 ! 1 ! 0)" by (simp add: float64_unit)
  have l: "0 \<le> example_tensor ! 1 ! 1 ! 0" and u: "example_tensor ! 1 ! 1 ! 0 \<le> 1"
    by simp_all
  have v: "example_tensor ! 1 ! 1 ! 0 = 1/8" "example_tensor ! 1 ! 1 ! 1 = 7/8" by simp_all
  from slots_are_complements [OF r p b f l u] r p b f l u v show ?thesis by blast
qed

text \<open>
  C2.  Where the measurement of patient \<open>p\<close> for biomarker \<open>b\<close> is missing, both slots of
  the returned tensor are one half, whatever the mixture models are.
\<close>

theorem missing_is_half:
  assumes "snd (get_prob_mat X mixture_models) = Inr T"
    and "p < n_particp X" and "b < n_biomarkers X"
    and "rows X ! p ! b = None"
  shows "T ! p ! b ! 0 = 1/2 \<and> T ! p ! b ! 1 = 1/2"
proof -
  have "col X b ! p = None"
    using assms(2,4) by (simp add: col_def n_particp_def)
  then have c: "column_value (col X b) ws p = 1/2" for ws
    by (simp add: column_value_def)
  have h: "fsub 1 (1/2) = 1/2" by code_simp
  from get_prob_mat_Inr(2) [OF assms(1-3)] obtain ws where
    "T ! p ! b = [column_value (col X b) ws p, fsub 1 (column_value (col X b) ws p)]" by blast
  then have "T ! p ! b = [1/2, 1/2]" unfolding c h .
  then show ?thesis by simp
qed

theorem missing_is_half_witness:
  "snd (get_prob_mat example_table [Inr, Inr]) = Inr example_tensor \<and>
   0 < n_particp example_table \<and> 1 < n_biomarkers example_table \<and>
   rows example_table ! 0 ! 1 = None \<and>
   example_tensor ! 0 ! 1 ! 0 = 1/2 \<and> example_tensor ! 0 ! 1 ! 1 = 1/2"
proof -
  have r: "snd (get_prob_mat example_table [Inr, Inr]) = Inr example_tensor" by code_simp
  have p: "0 < n_particp example_table" by (simp add: n_particp_def)
  have b: "1 < n_biomarkers example_table" by simp
  have m: "rows example_table ! 0 ! 1 = None" by simp
  from missing_is_half [OF r p b m] r p b m show ?thesis by blast
qed

text \<open>
  C6.  Where the measurement \<open>v\<close> of patient \<open>p\<close> for biomarker \<open>b\<close> is present, slot 0 of
  the returned tensor holds what \<^verbatim>\<open>mixture_models[b].probability\<close> returned for it: the
  entry of the returned array at the position that \<open>v\<close> has in the array passed (numpy
  repeats a returned array of length one).  For a model that answers value by value with
  \<open>f\<close>, the slot is \<open>f v\<close>.  The calls of \<^verbatim>\<open>probability\<close> are exactly one per biomarker, in
  column order, each on the present values of its column in row order.
\<close>

theorem present_slot_is_model_probability:
  assumes "snd (get_prob_mat X mixture_models) = Inr T"
    and "p < n_particp X" and "b < n_biomarkers X"
    and "rows X ! p ! b = Some v"
  shows "fst (get_prob_mat X mixture_models) =
           map (\<lambda>i. (i, present (col X i))) [0..<n_biomarkers X] \<and>
         (\<exists>probs. b < length mixture_models \<and>
            (mixture_models ! b) (present (col X b)) = Inr probs \<and>
            rank (not_nan (col X b)) p < length (present (col X b)) \<and>
            present (col X b) ! rank (not_nan (col X b)) p = v \<and>
            T ! p ! b ! 0 =
              (if length probs = length (present (col X b))
               then probs ! rank (not_nan (col X b)) p else probs ! 0)) \<and>
         ((\<forall>xs. (mixture_models ! b) xs = Inr (map f xs)) \<longrightarrow> T ! p ! b ! 0 = f v)"
proof -
  let ?c = "col X b"
  let ?k = "rank (not_nan ?c) p"
  have pl: "p < length ?c" using assms(2) by (simp add: col_def n_particp_def)
  have cp: "?c ! p = Some v" using assms(2,4) by (simp add: col_def n_particp_def)
  have kl: "?k < length (present ?c)"
    using rank_lt_count [of p "not_nan ?c"] pl cp
    by (simp add: length_present not_nan_def)
  have kv: "present ?c ! ?k = v" using present_rank [OF pl cp] .
  from get_prob_mat_Inr(2) [OF assms(1-3)] obtain ws
    where ws: "column_probs X mixture_models b = Inr ws"
      and Tv: "T ! p ! b ! 0 = column_value ?c ws p" by auto
  from ws obtain probs where bl: "b < length mixture_models"
    and pr: "(mixture_models ! b) (present ?c) = Inr probs"
    and bc: "broadcast_to (count_true (not_nan ?c)) probs = Inr ws"
    by (auto simp: column_probs_def getitem_def split: sum.splits if_splits)
  have Tk: "T ! p ! b ! 0 = ws ! ?k" using Tv cp by (simp add: column_value_def)
  have sel: "ws ! ?k = (if length probs = length (present ?c) then probs ! ?k else probs ! 0)"
    using bc kl by (auto simp: broadcast_to_def length_present split: if_splits)
  have pw: "T ! p ! b ! 0 = f v" if "\<forall>xs. (mixture_models ! b) xs = Inr (map f xs)"
  proof -
    from that pr have "probs = map f (present ?c)" by simp
    then show ?thesis using Tk sel kl kv by simp
  qed
  show ?thesis
    using get_prob_mat_Inr(1) [OF assms(1)] bl pr kl kv Tk sel pw by auto
qed

theorem present_slot_is_model_probability_witness:
  "snd (get_prob_mat example_table [Inr, Inr]) = Inr example_tensor \<and>
   1 < n_particp example_table \<and> 0 < n_biomarkers example_table \<and>
   rows example_table ! 1 ! 0 = Some (3/4) \<and>
   fst (get_prob_mat example_table [Inr, Inr]) = [(0, [1/4, 3/4]), (1, [1/8])] \<and>
   example_tensor ! 1 ! 0 ! 0 = 3/4"
proof -
  have r: "snd (get_prob_mat example_table [Inr, Inr]) = Inr example_tensor" by code_simp
  have p: "1 < n_particp example_table" by (simp add: n_particp_def)
  have b: "0 < n_biomarkers example_table" by simp
  have m: "rows example_table ! 1 ! 0 = Some (3/4)" by simp
  have c: "map (\<lambda>i. (i, present (col example_table i))) [0..<n_biomarkers example_table]
             = [(0, [1/4, 3/4]), (1, [1/8])]" by code_simp
  have f: "\<forall>xs. ([Inr, Inr] ! 0) xs = (Inr (map (\<lambda>x. x) xs) :: py_error + real list)" by simp
  from present_slot_is_model_probability [OF r p b m, of "\<lambda>x. x"] f
  have "fst (get_prob_mat example_table [Inr, Inr]) =
          map (\<lambda>i. (i, present (col example_table i))) [0..<n_biomarkers example_table]"
    and "example_tensor ! 1 ! 0 ! 0 = 3/4" by blast+
  with r p b m c show ?thesis by simp
qed

section \<open>Properties of the fitting entry points\<close>

lemma fit_loop_calls:
  "\<exists>cs. fst (fit_loop args fit is calls ms) = calls @ cs \<and> length cs \<le> length is \<and>
        (\<forall>k<length cs. args (is ! k) = Inr (cs ! k))"
proof (induction "is" arbitrary: calls ms)
  case Nil
  then show ?case by simp
next
  case (Cons i "is")
  show ?case
  proof (cases "args i")
    case (Inl e)
    then show ?thesis by simp
  next
    case (Inr a)
    show ?thesis
    proof (cases "fit a")
      case (Inl e)
      with Inr show ?thesis by simp
    next
      case fa: (Inr mm)
      from Cons.IH [of "calls @ [a]" "ms @ [mm]"] obtain cs where
        cs: "fst (fit_loop args fit is (calls @ [a]) (ms @ [mm])) = (calls @ [a]) @ cs"
        "length cs \<le> length is" "\<forall>k<length cs. args (is ! k) = Inr (cs ! k)" by blast
      have "\<forall>k<length (a # cs). args ((i # is) ! k) = Inr ((a # cs) ! k)"
        using cs(3) Inr by (auto simp: nth_Cons split: nat.splits)
      then show ?thesis
        using Inr fa cs(1,2) by (intro exI [of _ "a # cs"]) simp
    qed
  qed
qed

lemma fit_loop_Inr:
  "snd (fit_loop args fit is calls ms) = Inr ms' \<Longrightarrow>
   \<exists>cs new. fst (fit_loop args fit is calls ms) = calls @ cs \<and> ms' = ms @ new \<and>
     length cs = length is \<and> length new = length is \<and>
     (\<forall>k<length is. args (is ! k) = Inr (cs ! k) \<and> fit (cs ! k) = Inr (new ! k))"
proof (induction "is" arbitrary: calls ms)
  case Nil
  then show ?case by simp
next
  case (Cons i "is")
  from Cons.prems obtain a mm where a: "args i = Inr a" and fa: "fit a = Inr mm"
    and rest: "snd (fit_loop args fit is (calls @ [a]) (ms @ [mm])) = Inr ms'"
    by (auto split: sum.splits)
  from Cons.IH [OF rest] obtain cs new where
    cs: "fst (fit_loop args fit is (calls @ [a]) (ms @ [mm])) = (calls @ [a]) @ cs"
      "ms' = (ms @ [mm]) @ new" "length cs = length is" "length new = length is"
      "\<forall>k<length is. args (is ! k) = Inr (cs ! k) \<and> fit (cs ! k) = Inr (new ! k)" by blast
  have "\<forall>k<length (i # is). args ((i # is) ! k) = Inr ((a # cs) ! k) \<and>
          fit ((a # cs) ! k) = Inr ((mm # new) ! k)"
    using cs(5) a fa by (auto simp: nth_Cons split: nat.splits)
  then show ?case
    using a fa cs(1-4) by (intro exI [of _ "a # cs"] exI [of _ "mm # new"]) simp
qed

lemma fit_loop_cong:
  "\<forall>i\<in>set is. args i = args' i \<Longrightarrow>
   fit_loop args fit is calls ms = fit_loop args' fit is calls ms"
  by (induction "is" arbitrary: calls ms) (auto split: sum.splits)

lemma zip_as_map: "zip rs y = map (\<lambda>k. (rs ! k, y ! k)) [0..<min (length rs) (length y)]"
  by (rule nth_equalityI) simp_all

lemma where_lt2_bounded:
  assumes "\<forall>k\<in>set (where_lt2 y). k < n"
  shows "where_lt2 y = filter (\<lambda>k. y ! k < 2) [0..<min n (length y)]"
proof (cases "length y \<le> n")
  case True
  then show ?thesis by (simp add: where_lt2_def min_def)
next
  case False
  then have n: "n \<le> length y" by simp
  have split: "[0..<length y] = [0..<n] @ [n..<length y]"
    using n by (metis le_add_diff_inverse upt_add_eq_append zero_le)
  have "filter (\<lambda>k. y ! k < 2) [n..<length y] = []"
    using assms by (auto simp: where_lt2_def filter_empty_conv)
  then show ?thesis
    using n by (simp add: where_lt2_def split min_def)
qed

lemma first_two_diagnoses_Inr:
  assumes "first_two_diagnoses X y = Inr (X', y')"
  shows "n_biomarkers X' = n_biomarkers X"
    and "rows X' = map fst (filter (\<lambda>(r, l). l < 2) (zip (rows X) y))"
    and "y' = map snd (filter (\<lambda>(r, l). l < 2) (zip (rows X) y))"
proof -
  from assms have b: "\<forall>k\<in>set (where_lt2 y). k < length (rows X)"
    and X': "X' = X\<lparr>rows := map (\<lambda>k. rows X ! k) (where_lt2 y)\<rparr>"
    and y': "y' = map (\<lambda>k. y ! k) (where_lt2 y)"
    by (auto simp: first_two_diagnoses_def take_rows_def take_labels_def n_particp_def Let_def
        split: if_splits)
  let ?m = "min (length (rows X)) (length y)"
  have w: "where_lt2 y = filter (\<lambda>k. y ! k < 2) [0..<?m]"
    using where_lt2_bounded [OF b] .
  have f: "filter (\<lambda>(r, l). l < 2) (zip (rows X) y) =
        map (\<lambda>k. (rows X ! k, y ! k)) (filter (\<lambda>k. y ! k < 2) [0..<?m])"
    by (subst zip_as_map) (simp add: filter_map o_def)
  show "n_biomarkers X' = n_biomarkers X" using X' by simp
  show "rows X' = map fst (filter (\<lambda>(r, l). l < 2) (zip (rows X) y))"
    unfolding f using X' w by (simp add: o_def)
  show "y' = map snd (filter (\<lambda>(r, l). l < 2) (zip (rows X) y))"
    unfolding f using y' w by (simp add: o_def)
qed

lemma two_class_rows_eq:
  assumes "\<forall>l\<in>set y. 0 \<le> l"
  shows "filter (\<lambda>(r, l). l < 2) (zip (rows X) y) = two_class_rows X y"
  unfolding two_class_rows_def
proof (rule filter_cong [OF refl])
  fix z assume zin: "z \<in> set (zip (rows X) y)"
  obtain r l where z: "z = (r, l)" by (cases z)
  from zin z have "l \<in> set y" by (auto dest: set_zip_rightD)
  with assms have "0 \<le> l" by blast
  then show "(case z of (r, l) \<Rightarrow> l < 2) = (case z of (r, l) \<Rightarrow> l = 0 \<or> l = 1)"
    unfolding z by auto
qed

lemma present_pairs_of:
  "present (map (\<lambda>r. r ! i) (map fst zs)) = map fst (pairs_of i zs)"
proof (induction zs)
  case Nil
  then show ?case by (simp add: pairs_of_def)
next
  case (Cons z zs)
  then show ?case
    by (cases z; cases "fst z ! i") (simp_all add: pairs_of_def)
qed

lemma compress_pairs_of:
  "compress (not_nan (map (\<lambda>r. r ! i) (map fst zs))) (map snd zs) = map snd (pairs_of i zs)"
proof (induction zs)
  case Nil
  then show ?case by (simp add: pairs_of_def compress_def not_nan_def)
next
  case (Cons z zs)
  then show ?case
    by (cases z; cases "fst z ! i") (simp_all add: pairs_of_def compress_def not_nan_def)
qed

lemma filtered_column:
  assumes "first_two_diagnoses X y = Inr (X', y')" and "\<forall>l\<in>set y. 0 \<le> l"
  shows "present (col X' i) = map fst (training_pairs X y i)"
    and "compress (not_nan (col X' i)) y' = map snd (training_pairs X y i)"
proof -
  have r: "rows X' = map fst (two_class_rows X y)"
    and l: "y' = map snd (two_class_rows X y)"
    using first_two_diagnoses_Inr(2,3) [OF assms(1)] two_class_rows_eq [OF assms(2), of X]
    by simp_all
  show "present (col X' i) = map fst (training_pairs X y i)"
    unfolding col_def training_pairs_def r by (rule present_pairs_of)
  show "compress (not_nan (col X' i)) y' = map snd (training_pairs X y i)"
    unfolding col_def training_pairs_def r l by (rule compress_pairs_of)
qed

lemma fit_loop_upt_calls:
  assumes "k < length (fst (fit_loop args fit [0..<n] [] ms))"
  shows "k < n \<and> args k = Inr (fst (fit_loop args fit [0..<n] [] ms) ! k)"
proof -
  from fit_loop_calls [of args fit "[0..<n]" "[]" ms] obtain cs where
    cs: "fst (fit_loop args fit [0..<n] [] ms) = cs" "length cs \<le> n"
      "\<forall>k<length cs. args ([0..<n] ! k) = Inr (cs ! k)" by auto
  with assms have "k < length cs" by simp
  with cs show ?thesis by auto
qed

lemma fit_loop_upt_models:
  "one_model_per_biomarker fit n (fit_loop args fit [0..<n] [] [])"
proof (cases "snd (fit_loop args fit [0..<n] [] [])")
  case (Inl e)
  then show ?thesis by (simp add: one_model_per_biomarker_def)
next
  case (Inr ms)
  from fit_loop_Inr [OF Inr] obtain cs new where
    "fst (fit_loop args fit [0..<n] [] []) = cs" "ms = new" "length cs = n" "length new = n"
    "\<forall>k<n. args ([0..<n] ! k) = Inr (cs ! k) \<and> fit (cs ! k) = Inr (new ! k)" by auto
  with Inr show ?thesis by (simp add: one_model_per_biomarker_def)
qed

lemma gmm_args_data:
  "gmm_args X y i = Inr c \<Longrightarrow>
   bio_X c = present (col X i) \<and> bio_y c = compress (not_nan (col X i)) y"
  by (auto simp: gmm_args_def)

lemma kde_args_data:
  "kde_args X y flag ds a b quant i = Inr c \<Longrightarrow>
   bio_X c = present (col X i) \<and> bio_y c = compress (not_nan (col X i)) y"
  by (auto simp: kde_args_def split: sum.splits)

lemma kde_plus_args_data:
  "kde_plus_args X y flag ds alphas betas quant i = Inr c \<Longrightarrow>
   bio_X c = present (col X i) \<and> bio_y c = compress (not_nan (col X i)) y"
  by (auto simp: kde_plus_args_def split: sum.splits)

text \<open>The calls of a loop whose arguments carry column \<open>i\<close> of the filtered table.\<close>

lemma loop_takes_columns:
  assumes d: "\<And>i c. args i = Inr c \<Longrightarrow>
              bio_X c = present (col X' i) \<and> bio_y c = compress (not_nan (col X' i)) y'"
  shows "calls_take_columns X' y' (fst (fit_loop args fit [0..<n] [] []))"
  unfolding calls_take_columns_def
proof (intro allI impI)
  fix k assume "k < length (fst (fit_loop args fit [0..<n] [] []))"
  from fit_loop_upt_calls [OF this]
  have "args k = Inr (fst (fit_loop args fit [0..<n] [] []) ! k)" by simp
  from d [OF this]
  show "bio_X (fst (fit_loop args fit [0..<n] [] []) ! k) = present (col X' k) \<and>
        bio_y (fst (fit_loop args fit [0..<n] [] []) ! k) = compress (not_nan (col X' k)) y'" .
qed

lemma gmm_unfold:
  "fit_all_gmm_models fit X y flag =
     (case first_two_diagnoses X y of
        Inl e \<Rightarrow> ([], Inl e)
      | Inr (X', y') \<Rightarrow> fit_loop (gmm_args X' y') fit [0..<n_biomarkers X] [] [])"
proof (cases "first_two_diagnoses X y")
  case (Inl e)
  then show ?thesis by (simp add: fit_all_gmm_models_def)
next
  case (Inr Xy)
  obtain X' y' where Xy: "Xy = (X', y')" by (cases Xy)
  note f = Inr [unfolded Xy]
  have n: "n_biomarkers X' = n_biomarkers X" using first_two_diagnoses_Inr(1) [OF f] .
  show ?thesis by (simp add: fit_all_gmm_models_def f n)
qed

lemma kde_unfold:
  "fit_all_kde_models fit X y flag dirn a b quant =
     (case first_two_diagnoses X y of
        Inl e \<Rightarrow> ([], Inl e)
      | Inr (X', y') \<Rightarrow>
          fit_loop (kde_args X' y' flag dirn a b quant) fit [0..<n_biomarkers X] [] [])"
proof (cases "first_two_diagnoses X y")
  case (Inl e)
  then show ?thesis by (simp add: fit_all_kde_models_def)
next
  case (Inr Xy)
  obtain X' y' where Xy: "Xy = (X', y')" by (cases Xy)
  note f = Inr [unfolded Xy]
  have n: "n_biomarkers X' = n_biomarkers X" using first_two_diagnoses_Inr(1) [OF f] .
  show ?thesis by (simp add: fit_all_kde_models_def f n)
qed

lemma plus_unfold:
  "fit_all_kde_models_plus fit X y flag dirn alphas betas quant =
     (case first_two_diagnoses X y of
        Inl e \<Rightarrow> ([], Inl e)
      | Inr (X', y') \<Rightarrow>
          fit_loop (kde_plus_args X' y' flag dirn (resolve_alphas (n_biomarkers X) alphas)
                      (resolve_betas (n_biomarkers X) (resolve_alphas (n_biomarkers X) alphas) betas)
                      quant) fit [0..<n_biomarkers X] [] [])"
proof (cases "first_two_diagnoses X y")
  case (Inl e)
  then show ?thesis by (simp add: fit_all_kde_models_plus_def)
next
  case (Inr Xy)
  obtain X' y' where Xy: "Xy = (X', y')" by (cases Xy)
  note f = Inr [unfolded Xy]
  have n: "n_biomarkers X' = n_biomarkers X" using first_two_diagnoses_Inr(1) [OF f] .
  show ?thesis by (simp add: fit_all_kde_models_plus_def f Let_def n)
qed

lemma entry_points_take_columns:
  assumes f: "first_two_diagnoses X y = Inr (X', y')"
  shows "calls_take_columns X' y' (fst (fit_all_gmm_models fit X y flag))"
    and "calls_take_columns X' y' (fst (fit_all_kde_models fit' X y flag dirn a b quant))"
    and "calls_take_columns X' y'
           (fst (fit_all_kde_models_plus fit' X y flag dirn alphas betas quant))"
  unfolding gmm_unfold kde_unfold plus_unfold f
  by (simp_all add: loop_takes_columns gmm_args_data kde_args_data kde_plus_args_data)

lemma entry_points_without_rows:
  assumes f: "first_two_diagnoses X y = Inl e"
  shows "fit_all_gmm_models fit X y flag = ([], Inl e)"
    and "fit_all_kde_models fit' X y flag dirn a b quant = ([], Inl e)"
    and "fit_all_kde_models_plus fit' X y flag dirn alphas betas quant = ([], Inl e)"
  unfolding gmm_unfold kde_unfold plus_unfold f by simp_all

lemma error_one_model: "one_model_per_biomarker fit n (cs, Inl e)"
  by (simp add: one_model_per_biomarker_def)

lemma entry_points_models:
  "one_model_per_biomarker fit (n_biomarkers X) (fit_all_gmm_models fit X y flag)"
  "one_model_per_biomarker fit' (n_biomarkers X)
     (fit_all_kde_models fit' X y flag dirn a b quant)"
  "one_model_per_biomarker fit' (n_biomarkers X)
     (fit_all_kde_models_plus fit' X y flag dirn alphas betas quant)"
proof -
  show "one_model_per_biomarker fit (n_biomarkers X) (fit_all_gmm_models fit X y flag)"
    unfolding gmm_unfold
    by (cases "first_two_diagnoses X y") (auto simp: fit_loop_upt_models error_one_model)
  show "one_model_per_biomarker fit' (n_biomarkers X)
     (fit_all_kde_models fit' X y flag dirn a b quant)"
    unfolding kde_unfold
    by (cases "first_two_diagnoses X y") (auto simp: fit_loop_upt_models error_one_model)
  show "one_model_per_biomarker fit' (n_biomarkers X)
     (fit_all_kde_models_plus fit' X y flag dirn alphas betas quant)"
    unfolding plus_unfold
    by (cases "first_two_diagnoses X y") (auto simp: fit_loop_upt_models error_one_model)
qed

lemma take_columns_training_pairs:
  assumes f: "first_two_diagnoses X y = Inr (X', y')" and nn: "\<forall>l\<in>set y. 0 \<le> l"
    and c: "calls_take_columns X' y' calls"
  shows "fitted_on_training_pairs X y calls"
  using c filtered_column [OF f nn]
  by (simp add: calls_take_columns_def fitted_on_training_pairs_def)

lemma no_calls_fitted: "fitted_on_training_pairs X y []"
  by (simp add: fitted_on_training_pairs_def)

text \<open>When every call succeeds, \<open>fits_in_order\<close> makes all the calls and returns one
  model per call.\<close>

lemma fits_in_order_returns:
  "\<forall>c\<in>set cs. \<exists>m. fit c = Inr m \<Longrightarrow>
   \<exists>ms. fits_in_order fit cs = (cs, Inr ms) \<and> length ms = length cs \<and>
        (\<forall>k<length cs. fit (cs ! k) = Inr (ms ! k))"
proof (induction cs)
  case Nil
  then show ?case by simp
next
  case (Cons c cs)
  then obtain m ms where m: "fit c = Inr m" and r: "fits_in_order fit cs = (cs, Inr ms)"
    and l: "length ms = length cs" and f: "\<forall>k<length cs. fit (cs ! k) = Inr (ms ! k)"
    by auto
  have "\<forall>k<length (c # cs). fit ((c # cs) ! k) = Inr ((m # ms) ! k)"
    using m f by (auto simp add: nth_Cons split: nat.splits)
  then show ?case using m r l by simp
qed

lemma fit_loop_fits_in_order:
  "\<forall>i\<in>set is. args i = Inr (c i) \<Longrightarrow>
   fit_loop args fit is calls ms =
     (case fits_in_order fit (map c is) of
        (made, Inl e) \<Rightarrow> (calls @ made, Inl e)
      | (made, Inr new) \<Rightarrow> (calls @ made, Inr (ms @ new)))"
proof (induction "is" arbitrary: calls ms)
  case Nil
  then show ?case by simp
next
  case (Cons i "is")
  then have a: "args i = Inr (c i)" and r: "\<forall>i\<in>set is. args i = Inr (c i)" by simp_all
  show ?case
  proof (cases "fit (c i)")
    case (Inl e)
    then show ?thesis using a by simp
  next
    case (Inr mm)
    obtain made res where f: "fits_in_order fit (map c is) = (made, res)"
      by (cases "fits_in_order fit (map c is)")
    show ?thesis
      using a Inr f Cons.IH [OF r, of "calls @ [c i]" "ms @ [mm]"]
      by (cases res) simp_all
  qed
qed

lemma fit_loop_upt_fits_in_order:
  assumes "\<And>k. k < n \<Longrightarrow> args k = Inr (c k)"
  shows "fit_loop args fit [0..<n] [] [] = fits_in_order fit (map c [0..<n])"
proof -
  have "\<forall>i\<in>set [0..<n]. args i = Inr (c i)" using assms by simp
  from fit_loop_fits_in_order [OF this, of fit "[]" "[]"]
  show ?thesis
    by (cases "fits_in_order fit (map c [0..<n])"; cases "snd (fits_in_order fit (map c [0..<n]))")
      simp_all
qed

lemma one_label_per_patient:
  assumes "length y = n_particp X"
  shows "\<exists>X' y'. first_two_diagnoses X y = Inr (X', y')"
  using assms
  by (simp add: first_two_diagnoses_def take_rows_def where_lt2_def Let_def)

lemma gmm_args_training:
  assumes "first_two_diagnoses X y = Inr (X', y')" and "\<forall>l\<in>set y. 0 \<le> l"
  shows "gmm_args X' y' k = Inr (gmm_call X y k)"
  using filtered_column [OF assms, of k] by (simp add: gmm_args_def gmm_call_def)

lemma kde_args_training:
  assumes "first_two_diagnoses X y = Inr (X', y')" and "\<forall>l\<in>set y. 0 \<le> l"
    and "k < length ds"
  shows "kde_args X' y' flag (Some ds) a b quant k = Inr (kde_call X y flag ds a b quant k)"
  using filtered_column [OF assms(1,2), of k] assms(3)
  by (simp add: kde_args_def kde_call_def dirn_getitem_def getitem_def)

lemma kde_plus_args_training:
  assumes "first_two_diagnoses X y = Inr (X', y')" and "\<forall>l\<in>set y. 0 \<le> l"
    and "k < length ds" and "k < length as" and "k < length bs"
  shows "kde_plus_args X' y' flag (Some ds) (PyList as) (PyList bs) quant k
           = Inr (kde_plus_call X y flag ds as bs quant k)"
  using filtered_column [OF assms(1,2), of k] assms(3-5)
  by (simp add: kde_plus_args_def kde_plus_call_def kde_call_def dirn_getitem_def getitem_def)

lemma gmm_trains:
  assumes "\<forall>l\<in>set y. 0 \<le> l" and "length y = n_particp X"
  shows "fit_all_gmm_models fit X y flag
           = fits_in_order fit (map (gmm_call X y) [0..<n_biomarkers X])"
proof -
  from one_label_per_patient [OF assms(2)] obtain X' y' where
    f: "first_two_diagnoses X y = Inr (X', y')" by blast
  show ?thesis
    unfolding gmm_unfold f
    using fit_loop_upt_fits_in_order [of "n_biomarkers X" "gmm_args X' y'" "gmm_call X y" fit]
      gmm_args_training [OF f assms(1)]
    by simp
qed

lemma kde_trains:
  assumes "\<forall>l\<in>set y. 0 \<le> l" and "length y = n_particp X" and "n_biomarkers X \<le> length ds"
  shows "fit_all_kde_models fit X y flag (Some ds) a b quant
           = fits_in_order fit (map (kde_call X y flag ds a b quant) [0..<n_biomarkers X])"
proof -
  from one_label_per_patient [OF assms(2)] obtain X' y' where
    f: "first_two_diagnoses X y = Inr (X', y')" by blast
  show ?thesis
    unfolding kde_unfold f
    using fit_loop_upt_fits_in_order [of "n_biomarkers X"
        "kde_args X' y' flag (Some ds) a b quant" "kde_call X y flag ds a b quant" fit]
      kde_args_training [OF f assms(1)] assms(3)
    by simp
qed

lemma kde_plus_trains:
  assumes "\<forall>l\<in>set y. 0 \<le> l" and "length y = n_particp X" and "n_biomarkers X \<le> length ds"
    and "resolve_alphas (n_biomarkers X) alphas = PyList as"
    and "resolve_betas (n_biomarkers X) (PyList as) betas = PyList bs"
    and "n_biomarkers X \<le> length as" and "n_biomarkers X \<le> length bs"
  shows "fit_all_kde_models_plus fit X y flag (Some ds) alphas betas quant
           = fits_in_order fit (map (kde_plus_call X y flag ds as bs quant) [0..<n_biomarkers X])"
proof -
  from one_label_per_patient [OF assms(2)] obtain X' y' where
    f: "first_two_diagnoses X y = Inr (X', y')" by blast
  show ?thesis
    unfolding plus_unfold f assms(4) assms(5)
    using fit_loop_upt_fits_in_order [of "n_biomarkers X"
        "kde_plus_args X' y' flag (Some ds) (PyList as) (PyList bs) quant"
        "kde_plus_call X y flag ds as bs quant" fit]
      kde_plus_args_training [OF f assms(1)] assms(3,6,7)
    by simp
qed

text \<open>
  C3.  With labels that are non-negative, each of the three entry points calls \<open>fit\<close> for
  biomarker \<open>k\<close> on the rows whose label is 0 or 1 and whose value in column \<open>k\<close> is
  present: the values and the labels are the two components of the same list of pairs, in
  row order.  Rows with a label of 2 or more are not among them.  When an entry point
  returns, it returns one model per biomarker, model \<open>k\<close> fitted by call \<open>k\<close>.  With one
  label per patient (and, for the kernel-density entry points, a direction array and
  resolved hyperparameter lists with an entry for every biomarker) each entry point does
  exactly this: it fits the training pairs of biomarker 0, 1, ... in order, stops at the
  first fit that fails, and returns the fitted models.
\<close>

theorem fits_use_two_class_present_rows:
  assumes "\<forall>l\<in>set y. 0 \<le> l"
  shows "fitted_on_training_pairs X y (fst (fit_all_gmm_models fit X y flag)) \<and>
         one_model_per_biomarker fit (n_biomarkers X) (fit_all_gmm_models fit X y flag) \<and>
         fitted_on_training_pairs X y
           (fst (fit_all_kde_models fit' X y flag dirn a b quant)) \<and>
         one_model_per_biomarker fit' (n_biomarkers X)
           (fit_all_kde_models fit' X y flag dirn a b quant) \<and>
         fitted_on_training_pairs X y
           (fst (fit_all_kde_models_plus fit' X y flag dirn alphas betas quant)) \<and>
         one_model_per_biomarker fit' (n_biomarkers X)
           (fit_all_kde_models_plus fit' X y flag dirn alphas betas quant) \<and>
         (length y = n_particp X \<longrightarrow>
            fit_all_gmm_models fit X y flag
              = fits_in_order fit (map (gmm_call X y) [0..<n_biomarkers X])) \<and>
         (length y = n_particp X \<and> n_biomarkers X \<le> length ds \<longrightarrow>
            fit_all_kde_models fit' X y flag (Some ds) a b quant
              = fits_in_order fit'
                  (map (kde_call X y flag ds a b quant) [0..<n_biomarkers X])) \<and>
         (length y = n_particp X \<and> n_biomarkers X \<le> length ds \<and>
          resolve_alphas (n_biomarkers X) alphas = PyList as \<and>
          resolve_betas (n_biomarkers X) (PyList as) betas = PyList bs \<and>
          n_biomarkers X \<le> length as \<and> n_biomarkers X \<le> length bs \<longrightarrow>
            fit_all_kde_models_plus fit' X y flag (Some ds) alphas betas quant
              = fits_in_order fit'
                  (map (kde_plus_call X y flag ds as bs quant) [0..<n_biomarkers X]))"
proof -
  have calls: "fitted_on_training_pairs X y (fst (fit_all_gmm_models fit X y flag)) \<and>
         one_model_per_biomarker fit (n_biomarkers X) (fit_all_gmm_models fit X y flag) \<and>
         fitted_on_training_pairs X y
           (fst (fit_all_kde_models fit' X y flag dirn a b quant)) \<and>
         one_model_per_biomarker fit' (n_biomarkers X)
           (fit_all_kde_models fit' X y flag dirn a b quant) \<and>
         fitted_on_training_pairs X y
           (fst (fit_all_kde_models_plus fit' X y flag dirn alphas betas quant)) \<and>
         one_model_per_biomarker fit' (n_biomarkers X)
           (fit_all_kde_models_plus fit' X y flag dirn alphas betas quant)"
  proof (cases "first_two_diagnoses X y")
    case (Inl e)
    show ?thesis
      unfolding entry_points_without_rows [OF Inl]
      by (simp add: no_calls_fitted error_one_model)
  next
    case (Inr Xy)
    obtain X' y' where Xy: "Xy = (X', y')" by (cases Xy)
    note f = Inr [unfolded Xy]
    note t = take_columns_training_pairs [OF f assms]
    show ?thesis
      by (intro conjI entry_points_take_columns [OF f, THEN t] entry_points_models)
  qed
  have gmm: "length y = n_particp X \<longrightarrow>
      fit_all_gmm_models fit X y flag
        = fits_in_order fit (map (gmm_call X y) [0..<n_biomarkers X])"
    using gmm_trains [OF assms] by blast
  have kde: "length y = n_particp X \<and> n_biomarkers X \<le> length ds \<longrightarrow>
      fit_all_kde_models fit' X y flag (Some ds) a b quant
        = fits_in_order fit' (map (kde_call X y flag ds a b quant) [0..<n_biomarkers X])"
    using kde_trains [OF assms] by blast
  have plus: "length y = n_particp X \<and> n_biomarkers X \<le> length ds \<and>
      resolve_alphas (n_biomarkers X) alphas = PyList as \<and>
      resolve_betas (n_biomarkers X) (PyList as) betas = PyList bs \<and>
      n_biomarkers X \<le> length as \<and> n_biomarkers X \<le> length bs \<longrightarrow>
        fit_all_kde_models_plus fit' X y flag (Some ds) alphas betas quant
          = fits_in_order fit'
              (map (kde_plus_call X y flag ds as bs quant) [0..<n_biomarkers X])"
    using kde_plus_trains [OF assms] by blast
  from calls gmm kde plus show ?thesis by (intro conjI) (elim conjE, assumption)+
qed

theorem fits_use_two_class_present_rows_witness:
  "list_all (\<lambda>l. 0 \<le> l) fit_labels \<and>
   length fit_labels = n_particp fit_table \<and>
   n_biomarkers fit_table \<le> length [1, - 1 :: int] \<and>
   resolve_alphas 2 PyNone = PyList [PyFloat (3/10), PyFloat (3/10)] \<and>
   resolve_betas 2 (PyList [PyFloat (3/10), PyFloat (3/10)]) PyNone
     = PyList [PyFloat (3/10), PyFloat (3/10)] \<and>
   training_pairs fit_table fit_labels 0 = [(1, 0), (4, 1)] \<and>
   training_pairs fit_table fit_labels 1 = [(5, 1)] \<and>
   fit_all_gmm_models Inr fit_table fit_labels False
     = ([\<lparr>bio_X = [1, 4], bio_y = [0, 1]\<rparr>, \<lparr>bio_X = [5], bio_y = [1]\<rparr>],
        Inr [\<lparr>bio_X = [1, 4], bio_y = [0, 1]\<rparr>, \<lparr>bio_X = [5], bio_y = [1]\<rparr>]) \<and>
   fit_all_gmm_models Inr fit_table fit_labels False
     = fits_in_order Inr (map (gmm_call fit_table fit_labels) [0..<2]) \<and>
   fit_all_kde_models Inr fit_table fit_labels False (Some [1, - 1])
       (PyFloat (3/10)) PyNone (9/10)
     = ([\<lparr>bio_X = [1, 4], bio_y = [0, 1], alpha = PyFloat (3/10), beta = PyNone,
          implement_fixed_controls = False, patholog_dirn = 1,
          outlier_controls_quantile = 9/10\<rparr>,
         \<lparr>bio_X = [5], bio_y = [1], alpha = PyFloat (3/10), beta = PyNone,
          implement_fixed_controls = False, patholog_dirn = - 1,
          outlier_controls_quantile = 9/10\<rparr>],
        Inr [\<lparr>bio_X = [1, 4], bio_y = [0, 1], alpha = PyFloat (3/10), beta = PyNone,
              implement_fixed_controls = False, patholog_dirn = 1,
              outlier_controls_quantile = 9/10\<rparr>,
             \<lparr>bio_X = [5], bio_y = [1], alpha = PyFloat (3/10), beta = PyNone,
              implement_fixed_controls = False, patholog_dirn = - 1,
              outlier_controls_quantile = 9/10\<rparr>]) \<and>
   fit_all_kde_models Inr fit_table fit_labels False (Some [1, - 1])
       (PyFloat (3/10)) PyNone (9/10)
     = fits_in_order Inr
         (map (kde_call fit_table fit_labels False [1, - 1] (PyFloat (3/10)) PyNone (9/10))
            [0..<2]) \<and>
   fit_all_kde_models_plus Inr fit_table fit_labels False (Some [1, - 1])
       PyNone PyNone (9/10)
     = ([\<lparr>bio_X = [1, 4], bio_y = [0, 1], alpha = PyFloat (3/10), beta = PyFloat (3/10),
          implement_fixed_controls = False, patholog_dirn = 1,
          outlier_controls_quantile = 9/10\<rparr>,
         \<lparr>bio_X = [5], bio_y = [1], alpha = PyFloat (3/10), beta = PyFloat (3/10),
          implement_fixed_controls = False, patholog_dirn = - 1,
          outlier_controls_quantile = 9/10\<rparr>],
        Inr [\<lparr>bio_X = [1, 4], bio_y = [0, 1], alpha = PyFloat (3/10),
              beta = PyFloat (3/10), implement_fixed_controls = False, patholog_dirn = 1,
              outlier_controls_quantile = 9/10\<rparr>,
             \<lparr>bio_X = [5], bio_y = [1], alpha = PyFloat (3/10), beta = PyFloat (3/10),
              implement_fixed_controls = False, patholog_dirn = - 1,
              outlier_controls_quantile = 9/10\<rparr>]) \<and>
   fit_all_kde_models_plus Inr fit_table fit_labels False (Some [1, - 1])
       PyNone PyNone (9/10)
     = fits_in_order Inr
         (map (kde_plus_call fit_table fit_labels False [1, - 1]
                 [PyFloat (3/10), PyFloat (3/10)] [PyFloat (3/10), PyFloat (3/10)] (9/10))
            [0..<2]) \<and>
   fitted_on_training_pairs fit_table fit_labels
     (fst (fit_all_gmm_models Inr fit_table fit_labels False)) \<and>
   one_model_per_biomarker Inr 2 (fit_all_gmm_models Inr fit_table fit_labels False) \<and>
   fitted_on_training_pairs fit_table fit_labels
     (fst (fit_all_kde_models Inr fit_table fit_labels False (Some [1, - 1])
        (PyFloat (3/10)) PyNone (9/10))) \<and>
   one_model_per_biomarker Inr 2
     (fit_all_kde_models Inr fit_table fit_labels False (Some [1, - 1])
        (PyFloat (3/10)) PyNone (9/10)) \<and>
   fitted_on_training_pairs fit_table fit_labels
     (fst (fit_all_kde_models_plus Inr fit_table fit_labels False (Some [1, - 1])
        PyNone PyNone (9/10))) \<and>
   one_model_per_biomarker Inr 2
     (fit_all_kde_models_plus Inr fit_table fit_labels False (Some [1, - 1])
        PyNone PyNone (9/10))"
proof -
  have h: "\<forall>l\<in>set fit_labels. 0 \<le> l" by simp
  have n: "length fit_labels = n_particp fit_table" by (simp add: n_particp_def)
  have ra: "resolve_alphas 2 PyNone = PyList [PyFloat (3/10), PyFloat (3/10)]"
    by code_simp
  have rb: "resolve_betas 2 (PyList [PyFloat (3/10), PyFloat (3/10)]) PyNone
      = PyList [PyFloat (3/10), PyFloat (3/10)]"
    by code_simp
  have t0: "training_pairs fit_table fit_labels 0 = [(1, 0), (4, 1)]" by code_simp
  have t1: "training_pairs fit_table fit_labels 1 = [(5, 1)]" by code_simp
  have g: "fit_all_gmm_models Inr fit_table fit_labels False
     = ([\<lparr>bio_X = [1, 4], bio_y = [0, 1]\<rparr>, \<lparr>bio_X = [5], bio_y = [1]\<rparr>],
        Inr [\<lparr>bio_X = [1, 4], bio_y = [0, 1]\<rparr>, \<lparr>bio_X = [5], bio_y = [1]\<rparr>])"
    by code_simp
  have k: "fit_all_kde_models Inr fit_table fit_labels False (Some [1, - 1])
       (PyFloat (3/10)) PyNone (9/10)
     = ([\<lparr>bio_X = [1, 4], bio_y = [0, 1], alpha = PyFloat (3/10), beta = PyNone,
          implement_fixed_controls = False, patholog_dirn = 1,
          outlier_controls_quantile = 9/10\<rparr>,
         \<lparr>bio_X = [5], bio_y = [1], alpha = PyFloat (3/10), beta = PyNone,
          implement_fixed_controls = False, patholog_dirn = - 1,
          outlier_controls_quantile = 9/10\<rparr>],
        Inr [\<lparr>bio_X = [1, 4], bio_y = [0, 1], alpha = PyFloat (3/10), beta = PyNone,
              implement_fixed_controls = False, patholog_dirn = 1,
              outlier_controls_quantile = 9/10\<rparr>,
             \<lparr>bio_X = [5], bio_y = [1], alpha = PyFloat (3/10), beta = PyNone,
              implement_fixed_controls = False, patholog_dirn = - 1,
              outlier_controls_quantile = 9/10\<rparr>])"
    by code_simp
  have p: "fit_all_kde_models_plus Inr fit_table fit_labels False (Some [1, - 1])
       PyNone PyNone (9/10)
     = ([\<lparr>bio_X = [1, 4], bio_y = [0, 1], alpha = PyFloat (3/10), beta = PyFloat (3/10),
          implement_fixed_controls = False, patholog_dirn = 1,
          outlier_controls_quantile = 9/10\<rparr>,
         \<lparr>bio_X = [5], bio_y = [1], alpha = PyFloat (3/10), beta = PyFloat (3/10),
          implement_fixed_controls = False, patholog_dirn = - 1,
          outlier_controls_quantile = 9/10\<rparr>],
        Inr [\<lparr>bio_X = [1, 4], bio_y = [0, 1], alpha = PyFloat (3/10),
              beta = PyFloat (3/10), implement_fixed_controls = False, patholog_dirn = 1,
              outlier_controls_quantile = 9/10\<rparr>,
             \<lparr>bio_X = [5], bio_y = [1], alpha = PyFloat (3/10), beta = PyFloat (3/10),
              implement_fixed_controls = False, patholog_dirn = - 1,
              outlier_controls_quantile = 9/10\<rparr>])"
    by code_simp
  note inst = fits_use_two_class_present_rows [OF h, where X = fit_table and fit = Inr
      and flag = False and fit' = Inr and dirn = "Some [1, - 1]" and a = "PyFloat (3/10)"
      and b = PyNone and quant = "9/10" and alphas = PyNone and betas = PyNone
      and ds = "[1, - 1]" and as = "[PyFloat (3/10), PyFloat (3/10)]"
      and bs = "[PyFloat (3/10), PyFloat (3/10)]"]
  have two: "n_biomarkers fit_table = 2" by simp
  have d: "n_biomarkers fit_table \<le> length [1, - 1 :: int]" by simp
  have l: "n_biomarkers fit_table \<le> length [PyFloat (3/10), PyFloat (3/10)]" by simp
  from inst have e1: "fit_all_gmm_models Inr fit_table fit_labels False
     = fits_in_order Inr (map (gmm_call fit_table fit_labels) [0..<2])"
    using n two by (simp only: simp_thms)
  from inst have e2: "fit_all_kde_models Inr fit_table fit_labels False (Some [1, - 1])
       (PyFloat (3/10)) PyNone (9/10)
     = fits_in_order Inr
         (map (kde_call fit_table fit_labels False [1, - 1] (PyFloat (3/10)) PyNone (9/10))
            [0..<2])"
    using n two d by (simp only: simp_thms)
  from inst have e3: "fit_all_kde_models_plus Inr fit_table fit_labels False (Some [1, - 1])
       PyNone PyNone (9/10)
     = fits_in_order Inr
         (map (kde_plus_call fit_table fit_labels False [1, - 1]
                 [PyFloat (3/10), PyFloat (3/10)] [PyFloat (3/10), PyFloat (3/10)] (9/10))
            [0..<2])"
    using n two d l ra rb by (simp only: simp_thms)
  from inst have old: "fitted_on_training_pairs fit_table fit_labels
     (fst (fit_all_gmm_models Inr fit_table fit_labels False)) \<and>
   one_model_per_biomarker Inr 2 (fit_all_gmm_models Inr fit_table fit_labels False) \<and>
   fitted_on_training_pairs fit_table fit_labels
     (fst (fit_all_kde_models Inr fit_table fit_labels False (Some [1, - 1])
        (PyFloat (3/10)) PyNone (9/10))) \<and>
   one_model_per_biomarker Inr 2
     (fit_all_kde_models Inr fit_table fit_labels False (Some [1, - 1])
        (PyFloat (3/10)) PyNone (9/10)) \<and>
   fitted_on_training_pairs fit_table fit_labels
     (fst (fit_all_kde_models_plus Inr fit_table fit_labels False (Some [1, - 1])
        PyNone PyNone (9/10))) \<and>
   one_model_per_biomarker Inr 2
     (fit_all_kde_models_plus Inr fit_table fit_labels False (Some [1, - 1])
        PyNone PyNone (9/10))"
    using two by (simp only: simp_thms)
  have h': "list_all (\<lambda>l. 0 \<le> l) fit_labels" by simp
  from h' n d ra rb t0 t1 g e1 k e2 p e3 old show ?thesis
    by (intro conjI) (elim conjE, assumption)+
qed

section \<open>Hyperparameters and the pathology direction\<close>

lemma resolve_alphas_is_list: "\<exists>vs. resolve_alphas n alphas = PyList vs"
  by (cases alphas) (simp_all add: resolve_alphas_def)

lemma resolve_betas_None: "resolve_betas n (PyList vs) PyNone = PyList vs"
  by (simp add: resolve_betas_def)

lemma kde_plus_args_hyper:
  "kde_plus_args X y flag ds alphas betas quant i = Inr c \<Longrightarrow>
   subscript alphas i = Inr (alpha c) \<and> subscript betas i = Inr (beta c)"
  by (auto simp: kde_plus_args_def split: sum.splits)

lemma plus_built_with:
  "built_with (resolve_alphas (n_biomarkers X) alphas)
     (resolve_betas (n_biomarkers X) (resolve_alphas (n_biomarkers X) alphas) betas)
     (fst (fit_all_kde_models_plus fit X y flag dirn alphas betas quant))"
proof (cases "first_two_diagnoses X y")
  case (Inl e)
  then show ?thesis by (simp add: fit_all_kde_models_plus_def built_with_def)
next
  case (Inr Xy)
  obtain X' y' where Xy: "Xy = (X', y')" by (cases Xy)
  note f = Inr [unfolded Xy]
  have n: "n_biomarkers X' = n_biomarkers X" using first_two_diagnoses_Inr(1) [OF f] .
  let ?A = "resolve_alphas (n_biomarkers X) alphas"
  let ?B = "resolve_betas (n_biomarkers X) ?A betas"
  let ?L = "fit_loop (kde_plus_args X' y' flag dirn ?A ?B quant) fit [0..<n_biomarkers X] [] []"
  have r: "fit_all_kde_models_plus fit X y flag dirn alphas betas quant = ?L"
    by (simp add: fit_all_kde_models_plus_def f Let_def n)
  show ?thesis
    unfolding r built_with_def
  proof (intro allI impI)
    fix i assume "i < length (fst ?L)"
    from fit_loop_upt_calls [OF this]
    have "kde_plus_args X' y' flag dirn ?A ?B quant i = Inr (fst ?L ! i)" by simp
    from kde_plus_args_hyper [OF this]
    show "subscript ?A i = Inr (alpha (fst ?L ! i)) \<and> subscript ?B i = Inr (beta (fst ?L ! i))" .
  qed
qed

text \<open>
  C4.  In \<^verbatim>\<open>fit_all_kde_models_plus\<close> over \<open>B\<close> biomarkers, \<^verbatim>\<open>alphas=None\<close> becomes \<open>B\<close>
  copies of 0.3 and a scalar becomes \<open>B\<close> copies of itself; \<^verbatim>\<open>betas=None\<close> becomes the
  resolved \<open>alphas\<close> and a scalar \<open>B\<close> copies of itself; with \<^verbatim>\<open>alphas=0.5\<close>,
  \<^verbatim>\<open>betas=None\<close> and three biomarkers both sequences are \<open>[0.5, 0.5, 0.5]\<close>; and the model
  of call \<open>i\<close> is built with entry \<open>i\<close> of the resolved \<open>alphas\<close> and of the resolved
  \<open>betas\<close>.
\<close>

theorem hyperparameters_broadcast:
  "resolve_alphas B PyNone = PyList (replicate B (PyFloat (3/10))) \<and>
   resolve_alphas B (PyFloat s) = PyList (replicate B (PyFloat s)) \<and>
   resolve_betas B (resolve_alphas B alphas) PyNone = resolve_alphas B alphas \<and>
   resolve_betas B (resolve_alphas B alphas) (PyFloat s) = PyList (replicate B (PyFloat s)) \<and>
   resolve_alphas 3 (PyFloat (1/2)) = PyList [PyFloat (1/2), PyFloat (1/2), PyFloat (1/2)] \<and>
   resolve_betas 3 (resolve_alphas 3 (PyFloat (1/2))) PyNone
     = PyList [PyFloat (1/2), PyFloat (1/2), PyFloat (1/2)] \<and>
   built_with (resolve_alphas (n_biomarkers X) alphas)
     (resolve_betas (n_biomarkers X) (resolve_alphas (n_biomarkers X) alphas) betas)
     (fst (fit_all_kde_models_plus fit X y flag dirn alphas betas quant))"
proof -
  obtain vs where vs: "resolve_alphas B alphas = PyList vs"
    using resolve_alphas_is_list by blast
  have 1: "resolve_alphas B PyNone = PyList (replicate B (PyFloat (3/10)))"
    by (simp add: resolve_alphas_def)
  have 2: "resolve_alphas n (PyFloat s) = PyList (replicate n (PyFloat s))" for n s
    by (simp add: resolve_alphas_def)
  have 3: "resolve_betas B (resolve_alphas B alphas) PyNone = resolve_alphas B alphas"
    unfolding vs by (rule resolve_betas_None)
  have 4: "resolve_betas B (resolve_alphas B alphas) (PyFloat s) = PyList (replicate B (PyFloat s))"
    by (simp add: resolve_betas_def)
  have 5: "resolve_alphas 3 (PyFloat (1/2)) = PyList [PyFloat (1/2), PyFloat (1/2), PyFloat (1/2)]"
    by (simp add: 2 eval_nat_numeral)
  have 6: "resolve_betas 3 (resolve_alphas 3 (PyFloat (1/2))) PyNone
     = PyList [PyFloat (1/2), PyFloat (1/2), PyFloat (1/2)]"
    unfolding 5 by (rule resolve_betas_None)
  show ?thesis
    using 1 2 3 4 5 6 plus_built_with by blast
qed

theorem hyperparameters_broadcast_witness:
  "resolve_alphas 2 PyNone = PyList [PyFloat (3/10), PyFloat (3/10)] \<and>
   resolve_betas 2 (resolve_alphas 2 PyNone) PyNone = PyList [PyFloat (3/10), PyFloat (3/10)] \<and>
   resolve_alphas 3 (PyFloat (1/2)) = PyList [PyFloat (1/2), PyFloat (1/2), PyFloat (1/2)] \<and>
   resolve_betas 3 (resolve_alphas 3 (PyFloat (1/2))) PyNone
     = PyList [PyFloat (1/2), PyFloat (1/2), PyFloat (1/2)] \<and>
   map alpha (fst (fit_all_kde_models_plus Inr fit_table fit_labels False (Some [1, - 1])
        (PyFloat (1/2)) PyNone (9/10))) = [PyFloat (1/2), PyFloat (1/2)] \<and>
   map beta (fst (fit_all_kde_models_plus Inr fit_table fit_labels False (Some [1, - 1])
        (PyFloat (1/2)) PyNone (9/10))) = [PyFloat (1/2), PyFloat (1/2)] \<and>
   built_with (resolve_alphas (n_biomarkers fit_table) (PyFloat (1/2)))
     (resolve_betas (n_biomarkers fit_table)
        (resolve_alphas (n_biomarkers fit_table) (PyFloat (1/2))) PyNone)
     (fst (fit_all_kde_models_plus Inr fit_table fit_labels False (Some [1, - 1])
        (PyFloat (1/2)) PyNone (9/10)))"
proof -
  have a: "resolve_alphas 2 PyNone = PyList [PyFloat (3/10), PyFloat (3/10)]" by code_simp
  have b: "resolve_betas 2 (resolve_alphas 2 PyNone) PyNone
             = PyList [PyFloat (3/10), PyFloat (3/10)]" by code_simp
  have c: "map alpha (fst (fit_all_kde_models_plus Inr fit_table fit_labels False
             (Some [1, - 1]) (PyFloat (1/2)) PyNone (9/10))) = [PyFloat (1/2), PyFloat (1/2)]"
    by code_simp
  have d: "map beta (fst (fit_all_kde_models_plus Inr fit_table fit_labels False
             (Some [1, - 1]) (PyFloat (1/2)) PyNone (9/10))) = [PyFloat (1/2), PyFloat (1/2)]"
    by code_simp
  from hyperparameters_broadcast [where B = 2 and s = "1/2" and alphas = "PyFloat (1/2)"
      and X = fit_table and betas = PyNone and fit = Inr and y = fit_labels and flag = False
      and dirn = "Some [1, - 1]" and quant = "9/10"] a b c d
  show ?thesis by blast
qed

lemma kde_plus_args_scalar:
  "i < n \<Longrightarrow>
   kde_plus_args X y flag ds (PyList (replicate n a)) (PyList (replicate n b)) quant i
     = kde_args X y flag ds a b quant i"
  by (simp add: kde_plus_args_def kde_args_def getitem_def split: sum.splits)

text \<open>
  C7.  With scalar hyperparameters \<open>a\<close> and \<open>b\<close>, \<^verbatim>\<open>fit_all_kde_models_plus\<close> makes the
  same calls of \<open>fit\<close> and returns the same result as \<^verbatim>\<open>fit_all_kde_models\<close> with
  \<^verbatim>\<open>alpha=a\<close> and \<^verbatim>\<open>beta=b\<close>, for every table, label vector, direction array, quantile
  and flag.
\<close>

theorem plus_with_scalars_is_kde:
  "fit_all_kde_models_plus fit X y flag dirn (PyFloat a) (PyFloat b) quant
     = fit_all_kde_models fit X y flag dirn (PyFloat a) (PyFloat b) quant"
proof (cases "first_two_diagnoses X y")
  case (Inl e)
  then show ?thesis by (simp add: fit_all_kde_models_plus_def fit_all_kde_models_def)
next
  case (Inr Xy)
  obtain X' y' where Xy: "Xy = (X', y')" by (cases Xy)
  note f = Inr [unfolded Xy]
  let ?n = "n_biomarkers X'"
  have "fit_loop (kde_plus_args X' y' flag dirn (PyList (replicate ?n (PyFloat a)))
                   (PyList (replicate ?n (PyFloat b))) quant) fit [0..<?n] [] []
        = fit_loop (kde_args X' y' flag dirn (PyFloat a) (PyFloat b) quant) fit [0..<?n] [] []"
    by (rule fit_loop_cong) (simp add: kde_plus_args_scalar)
  then show ?thesis
    by (simp add: fit_all_kde_models_plus_def fit_all_kde_models_def f Let_def
        resolve_alphas_def resolve_betas_def)
qed

theorem plus_with_scalars_is_kde_witness:
  "fit_all_kde_models_plus Inr fit_table fit_labels False (Some [1, - 1])
       (PyFloat (1/2)) (PyFloat (1/4)) (9/10)
     = fit_all_kde_models Inr fit_table fit_labels False (Some [1, - 1])
       (PyFloat (1/2)) (PyFloat (1/4)) (9/10) \<and>
   map beta (fst (fit_all_kde_models Inr fit_table fit_labels False (Some [1, - 1])
       (PyFloat (1/2)) (PyFloat (1/4)) (9/10))) = [PyFloat (1/4), PyFloat (1/4)]"
proof -
  have c: "map beta (fst (fit_all_kde_models Inr fit_table fit_labels False (Some [1, - 1])
       (PyFloat (1/2)) (PyFloat (1/4)) (9/10))) = [PyFloat (1/4), PyFloat (1/4)]"
    by code_simp
  from plus_with_scalars_is_kde [where fit = Inr and X = fit_table and y = fit_labels
      and flag = False and dirn = "Some [1, - 1]" and a = "1/2" and b = "1/4"
      and quant = "9/10"] c
  show ?thesis by blast
qed

lemma first_two_diagnoses_cases:
  "first_two_diagnoses X y =
     (if \<forall>k\<in>set (where_lt2 y). k < n_particp X
      then Inr (X\<lparr>rows := map (\<lambda>k. rows X ! k) (where_lt2 y)\<rparr>, take_labels y (where_lt2 y))
      else Inl IndexError)"
  by (simp add: first_two_diagnoses_def take_rows_def Let_def)

lemma fit_loop_first_fails:
  "0 < n \<Longrightarrow> args 0 = Inl e \<Longrightarrow> fit_loop args fit [0..<n] [] [] = ([], Inl e)"
  by (simp add: upt_conv_Cons)

text \<open>
  C10.  With \<^verbatim>\<open>patholog_dirn_array\<close> left at \<^verbatim>\<open>None\<close> and a table of at least one biomarker
  column, \<^verbatim>\<open>fit_all_kde_models\<close> and \<^verbatim>\<open>fit_all_kde_models_plus\<close> fail before any call of
  \<open>fit\<close>: with the \<^verbatim>\<open>TypeError\<close> of \<^verbatim>\<open>None[0]\<close> when the label filter went through, with
  the filter's \<^verbatim>\<open>IndexError\<close> otherwise.
\<close>

theorem default_direction_array_fails:
  assumes "0 < n_biomarkers X"
  shows "fit_all_kde_models fit X y flag None a b quant
           = ([], Inl (if \<forall>k\<in>set (where_lt2 y). k < n_particp X then TypeError else IndexError)) \<and>
         fit_all_kde_models_plus fit X y flag None alphas betas quant
           = ([], Inl (if \<forall>k\<in>set (where_lt2 y). k < n_particp X then TypeError else IndexError))"
  using assms
  by (simp add: fit_all_kde_models_def fit_all_kde_models_plus_def first_two_diagnoses_cases
      Let_def fit_loop_first_fails kde_args_def kde_plus_args_def dirn_getitem_def)

theorem default_direction_array_fails_witness:
  "0 < n_biomarkers fit_table \<and>
   fit_all_kde_models Inr fit_table fit_labels False None (PyFloat (3/10)) PyNone (9/10)
     = ([], Inl TypeError) \<and>
   fit_all_kde_models_plus Inr fit_table fit_labels False None PyNone PyNone (9/10)
     = ([], Inl TypeError)"
proof -
  have h: "0 < n_biomarkers fit_table" by simp
  have f: "\<forall>k\<in>set (where_lt2 fit_labels). k < n_particp fit_table" by code_simp
  from default_direction_array_fails [OF h, where fit = Inr and y = fit_labels
      and flag = False and a = "PyFloat (3/10)" and b = PyNone and quant = "9/10"
      and alphas = PyNone and betas = PyNone] h f
  show ?thesis by simp
qed

lemma fit_loop_stops_at:
  assumes "j < n" and "args j = Inl e"
  shows "(\<exists>e'. snd (fit_loop args fit [0..<n] [] []) = Inl e') \<and>
         length (fst (fit_loop args fit [0..<n] [] [])) \<le> j"
proof -
  let ?r = "fit_loop args fit [0..<n] [] []"
  have "\<exists>e'. snd ?r = Inl e'"
  proof (cases "snd ?r")
    case (Inl e')
    then show ?thesis by blast
  next
    case (Inr ms)
    from fit_loop_Inr [OF Inr] assms have False by auto
    then show ?thesis ..
  qed
  moreover have "length (fst ?r) \<le> j"
  proof (rule ccontr)
    assume "\<not> length (fst ?r) \<le> j"
    then have "j < length (fst ?r)" by simp
    from fit_loop_upt_calls [OF this] assms(2) show False by simp
  qed
  ultimately show ?thesis by blast
qed

lemma short_betas_args:
  "\<exists>e. kde_plus_args X y flag ds alphas (PyList ws) quant (length ws) = Inl e"
  by (auto simp: kde_plus_args_def getitem_def split: sum.splits)

lemma short_alphas_args_ex:
  "\<exists>e. kde_plus_args X y flag ds (PyList vs) betas quant (length vs) = Inl e"
  by (auto simp: kde_plus_args_def getitem_def split: sum.splits)

lemma resolve_list [simp]:
  "resolve_alphas n (PyList vs) = PyList vs"
  "resolve_betas n alphas (PyList ws) = PyList ws"
  by (simp_all add: resolve_alphas_def resolve_betas_def)

lemma plus_stops_at:
  assumes "j < n_biomarkers X"
    and "\<And>X' y'. \<exists>e. kde_plus_args X' y' flag dirn (resolve_alphas (n_biomarkers X) alphas)
            (resolve_betas (n_biomarkers X) (resolve_alphas (n_biomarkers X) alphas) betas)
            quant j = Inl e"
  shows "(\<exists>e. snd (fit_all_kde_models_plus fit X y flag dirn alphas betas quant) = Inl e) \<and>
         length (fst (fit_all_kde_models_plus fit X y flag dirn alphas betas quant)) \<le> j"
proof (cases "first_two_diagnoses X y")
  case (Inl e)
  then show ?thesis by (simp add: plus_unfold)
next
  case (Inr Xy)
  obtain X' y' where Xy: "Xy = (X', y')" by (cases Xy)
  note f = Inr [unfolded Xy]
  let ?args = "kde_plus_args X' y' flag dirn (resolve_alphas (n_biomarkers X) alphas)
       (resolve_betas (n_biomarkers X) (resolve_alphas (n_biomarkers X) alphas) betas) quant"
  from assms(2) [of X' y'] obtain e where "?args j = Inl e" by blast
  from fit_loop_stops_at [of j "n_biomarkers X" ?args e fit, OF assms(1) this]
  show ?thesis by (simp add: plus_unfold f)
qed

lemma subscript_take:
  "i < n \<Longrightarrow> subscript (PyList (take n vs)) i = subscript (PyList vs) i"
  by (simp add: getitem_def)

lemma subscript_resolve_betas_take:
  "i < n \<Longrightarrow> subscript (resolve_betas m (PyList (take n vs)) betas) i
             = subscript (resolve_betas m (PyList vs) betas) i"
  by (cases betas) (simp_all add: resolve_betas_def getitem_def)

lemma kde_plus_args_cong:
  "subscript alphas i = subscript alphas' i \<Longrightarrow> subscript betas i = subscript betas' i \<Longrightarrow>
   kde_plus_args X y flag ds alphas betas quant i = kde_plus_args X y flag ds alphas' betas' quant i"
  by (simp add: kde_plus_args_def split: sum.splits)

text \<open>
  C5, as stated, fails: a list of two \<open>alphas\<close> for a table of one biomarker is accepted,
  the call returns a model and the second entry is never read.
\<close>

theorem longer_list_is_accepted:
  "length [PyFloat (1/10), PyFloat (1/5)] \<noteq> n_biomarkers one_column \<and>
   fit_all_kde_models_plus Inr one_column [0, 1] False (Some [1])
       (PyList [PyFloat (1/10), PyFloat (1/5)]) PyNone (9/10)
     = ([\<lparr>bio_X = [1, 2], bio_y = [0, 1], alpha = PyFloat (1/10), beta = PyFloat (1/10),
           implement_fixed_controls = False, patholog_dirn = 1,
           outlier_controls_quantile = 9/10\<rparr>],
        Inr [\<lparr>bio_X = [1, 2], bio_y = [0, 1], alpha = PyFloat (1/10), beta = PyFloat (1/10),
           implement_fixed_controls = False, patholog_dirn = 1,
           outlier_controls_quantile = 9/10\<rparr>])"
  by code_simp

text \<open>
  C5, amended.  A list of \<open>alphas\<close> or \<open>betas\<close> that is shorter than the number of
  biomarker columns makes \<^verbatim>\<open>fit_all_kde_models_plus\<close> fail, after at most as many calls of
  \<open>fit\<close> as the list has entries; a list that is longer is accepted, and the run is the one
  for the list cut to the number of columns.
\<close>

theorem list_length_mismatch:
  "(length vs < n_biomarkers X \<longrightarrow>
      (\<exists>e. snd (fit_all_kde_models_plus fit X y flag dirn (PyList vs) betas quant) = Inl e) \<and>
      length (fst (fit_all_kde_models_plus fit X y flag dirn (PyList vs) betas quant))
        \<le> length vs) \<and>
   (length ws < n_biomarkers X \<longrightarrow>
      (\<exists>e. snd (fit_all_kde_models_plus fit X y flag dirn alphas (PyList ws) quant) = Inl e) \<and>
      length (fst (fit_all_kde_models_plus fit X y flag dirn alphas (PyList ws) quant))
        \<le> length ws) \<and>
   (n_biomarkers X \<le> length vs' \<longrightarrow>
      fit_all_kde_models_plus fit X y flag dirn (PyList vs') betas quant
        = fit_all_kde_models_plus fit X y flag dirn (PyList (take (n_biomarkers X) vs')) betas
            quant) \<and>
   (n_biomarkers X \<le> length ws' \<longrightarrow>
      fit_all_kde_models_plus fit X y flag dirn alphas (PyList ws') quant
        = fit_all_kde_models_plus fit X y flag dirn alphas (PyList (take (n_biomarkers X) ws'))
            quant)"
proof (intro conjI impI)
  assume "length vs < n_biomarkers X"
  from plus_stops_at [OF this, of flag dirn "PyList vs" betas quant fit y]
  show "\<exists>e. snd (fit_all_kde_models_plus fit X y flag dirn (PyList vs) betas quant) = Inl e"
    and "length (fst (fit_all_kde_models_plus fit X y flag dirn (PyList vs) betas quant))
        \<le> length vs"
    by (simp_all add: short_alphas_args_ex)
next
  assume "length ws < n_biomarkers X"
  from plus_stops_at [OF this, of flag dirn alphas "PyList ws" quant fit y]
  show "\<exists>e. snd (fit_all_kde_models_plus fit X y flag dirn alphas (PyList ws) quant) = Inl e"
    and "length (fst (fit_all_kde_models_plus fit X y flag dirn alphas (PyList ws) quant))
        \<le> length ws"
    by (simp_all add: short_betas_args)
next
  let ?n = "n_biomarkers X"
  assume "?n \<le> length vs'"
  have "fit_loop (kde_plus_args X' y' flag dirn (PyList vs')
                    (resolve_betas ?n (PyList vs') betas) quant) fit [0..<?n] [] []
      = fit_loop (kde_plus_args X' y' flag dirn (PyList (take ?n vs'))
                    (resolve_betas ?n (PyList (take ?n vs')) betas) quant) fit [0..<?n] [] []"
    for X' y'
  proof (rule fit_loop_cong, rule ballI)
    fix i assume "i \<in> set [0..<?n]"
    then have i: "i < ?n" by simp
    show "kde_plus_args X' y' flag dirn (PyList vs') (resolve_betas ?n (PyList vs') betas) quant i
        = kde_plus_args X' y' flag dirn (PyList (take ?n vs'))
            (resolve_betas ?n (PyList (take ?n vs')) betas) quant i"
      using subscript_take [OF i, of vs'] subscript_resolve_betas_take [OF i, of ?n vs' betas]
      by (intro kde_plus_args_cong) simp_all
  qed
  then have "fit_all_kde_models_plus fit X y flag dirn (PyList vs') betas quant
        = fit_all_kde_models_plus fit X y flag dirn (PyList (take ?n vs')) betas quant"
    unfolding plus_unfold resolve_list by (cases "first_two_diagnoses X y") auto
  then show "fit_all_kde_models_plus fit X y flag dirn (PyList vs') betas quant
        = fit_all_kde_models_plus fit X y flag dirn (PyList (take (n_biomarkers X) vs')) betas
            quant" .
next
  let ?n = "n_biomarkers X"
  assume "?n \<le> length ws'"
  have "fit_loop (kde_plus_args X' y' flag dirn (resolve_alphas ?n alphas)
                    (PyList ws') quant) fit [0..<?n] [] []
      = fit_loop (kde_plus_args X' y' flag dirn (resolve_alphas ?n alphas)
                    (PyList (take ?n ws')) quant) fit [0..<?n] [] []"
    for X' y'
  proof (rule fit_loop_cong, rule ballI)
    fix i assume "i \<in> set [0..<?n]"
    then have i: "i < ?n" by simp
    show "kde_plus_args X' y' flag dirn (resolve_alphas ?n alphas) (PyList ws') quant i
        = kde_plus_args X' y' flag dirn (resolve_alphas ?n alphas) (PyList (take ?n ws')) quant i"
      using subscript_take [OF i, of ws']
      by (intro kde_plus_args_cong) simp_all
  qed
  then have "fit_all_kde_models_plus fit X y flag dirn alphas (PyList ws') quant
        = fit_all_kde_models_plus fit X y flag dirn alphas (PyList (take ?n ws')) quant"
    unfolding plus_unfold resolve_list by (cases "first_two_diagnoses X y") auto
  then show "fit_all_kde_models_plus fit X y flag dirn alphas (PyList ws') quant
        = fit_all_kde_models_plus fit X y flag dirn alphas (PyList (take (n_biomarkers X) ws'))
            quant" .
qed

theorem list_length_mismatch_witness:
  "length [PyFloat (1/10)] < n_biomarkers fit_table \<and>
   fit_all_kde_models_plus Inr fit_table fit_labels False (Some [1, - 1])
       (PyList [PyFloat (1/10)]) PyNone (9/10)
     = ([\<lparr>bio_X = [1, 4], bio_y = [0, 1], alpha = PyFloat (1/10), beta = PyFloat (1/10),
           implement_fixed_controls = False, patholog_dirn = 1,
           outlier_controls_quantile = 9/10\<rparr>], Inl IndexError) \<and>
   length [PyFloat (1/5)] < n_biomarkers fit_table \<and>
   (\<exists>e. snd (fit_all_kde_models_plus Inr fit_table fit_labels False (Some [1, - 1])
       PyNone (PyList [PyFloat (1/5)]) (9/10)) = Inl e) \<and>
   n_biomarkers fit_table \<le> length [PyFloat (1/10), PyFloat (1/5), PyFloat (3/10)] \<and>
   fit_all_kde_models_plus Inr fit_table fit_labels False (Some [1, - 1])
       (PyList [PyFloat (1/10), PyFloat (1/5), PyFloat (3/10)]) PyNone (9/10)
     = fit_all_kde_models_plus Inr fit_table fit_labels False (Some [1, - 1])
       (PyList [PyFloat (1/10), PyFloat (1/5)]) PyNone (9/10) \<and>
   fit_all_kde_models_plus Inr fit_table fit_labels False (Some [1, - 1])
       PyNone (PyList [PyFloat (1/10), PyFloat (1/5), PyFloat (3/10)]) (9/10)
     = fit_all_kde_models_plus Inr fit_table fit_labels False (Some [1, - 1])
       PyNone (PyList [PyFloat (1/10), PyFloat (1/5)]) (9/10)"
proof -
  have s: "length [PyFloat (1/10)] < n_biomarkers fit_table"
    "length [PyFloat (1/5)] < n_biomarkers fit_table" by simp_all
  have l: "n_biomarkers fit_table \<le> length [PyFloat (1/10), PyFloat (1/5), PyFloat (3/10)]"
    by simp
  have t: "take (n_biomarkers fit_table) [PyFloat (1/10), PyFloat (1/5), PyFloat (3/10)]
             = [PyFloat (1/10), PyFloat (1/5)]" by simp
  have e: "fit_all_kde_models_plus Inr fit_table fit_labels False (Some [1, - 1])
       (PyList [PyFloat (1/10)]) PyNone (9/10)
     = ([\<lparr>bio_X = [1, 4], bio_y = [0, 1], alpha = PyFloat (1/10), beta = PyFloat (1/10),
           implement_fixed_controls = False, patholog_dirn = 1,
           outlier_controls_quantile = 9/10\<rparr>], Inl IndexError)" by code_simp
  from list_length_mismatch [where vs = "[PyFloat (1/10)]" and X = fit_table and fit = Inr
      and y = fit_labels and flag = False and dirn = "Some [1, - 1]" and betas = PyNone
      and quant = "9/10" and ws = "[PyFloat (1/5)]" and alphas = PyNone
      and vs' = "[PyFloat (1/10), PyFloat (1/5), PyFloat (3/10)]"
      and ws' = "[PyFloat (1/10), PyFloat (1/5), PyFloat (3/10)]"] s l
  show ?thesis unfolding t using e by blast
qed


section \<open>Empty training data\<close>

text \<open>
  C8, as stated, fails: for a table whose second column has no value at all, the second
  call of \<open>fit\<close> gets an empty array of measurements (and of labels), in the
  Gaussian-mixture and in the kernel-density entry point.
\<close>

theorem fit_is_called_on_empty_column:
  "fst (fit_all_gmm_models Inr empty_column [0, 1] False)
     = [\<lparr>bio_X = [1, 2], bio_y = [0, 1]\<rparr>, \<lparr>bio_X = [], bio_y = []\<rparr>] \<and>
   fst (fit_all_kde_models Inr empty_column [0, 1] False (Some [1, 1]) (PyFloat (3/10)) PyNone
          (9/10)) ! 1
     = \<lparr>bio_X = [], bio_y = [], alpha = PyFloat (3/10), beta = PyNone,
        implement_fixed_controls = False, patholog_dirn = 1,
        outlier_controls_quantile = 9/10\<rparr>"
  by code_simp

lemma present_empty: "(present c \<noteq> []) = (\<exists>v\<in>set c. v \<noteq> None)"
  by (induction c rule: present.induct) simp_all

lemma filtered_column_data:
  assumes "first_two_diagnoses X y = Inr (X', y')"
  shows "(present (col X' k) \<noteq> []) = (\<exists>(r, l)\<in>set (zip (rows X) y). l < 2 \<and> r ! k \<noteq> None)"
    and "length (compress (not_nan (col X' k)) y') = length (present (col X' k))"
proof -
  let ?zs = "filter (\<lambda>(r, l). l < 2) (zip (rows X) y)"
  have r: "rows X' = map fst ?zs" and l: "y' = map snd ?zs"
    using first_two_diagnoses_Inr(2,3) [OF assms] by simp_all
  show "(present (col X' k) \<noteq> []) = (\<exists>(r, l)\<in>set (zip (rows X) y). l < 2 \<and> r ! k \<noteq> None)"
    unfolding present_empty col_def r by force
  have "length (compress (not_nan (col X' k)) y') = length (map snd (pairs_of k ?zs))"
    unfolding col_def r l by (simp only: compress_pairs_of)
  also have "\<dots> = length (map fst (pairs_of k ?zs))" by simp
  also have "\<dots> = length (present (col X' k))"
    unfolding col_def r by (simp only: present_pairs_of)
  finally show "length (compress (not_nan (col X' k)) y') = length (present (col X' k))" .
qed

lemma take_columns_empty:
  assumes f: "first_two_diagnoses X y = Inr (X', y')"
    and c: "calls_take_columns X' y' calls"
  shows "empty_without_present_row X y calls"
  using c filtered_column_data [OF f]
  by (simp add: calls_take_columns_def empty_without_present_row_def)

lemma no_calls_empty: "empty_without_present_row X y []"
  by (simp add: empty_without_present_row_def)

text \<open>
  C8, amended.  No entry point checks for emptiness: call \<open>k\<close> of \<open>fit\<close> gets the values of
  column \<open>k\<close> that are present in rows with a label below 2, so its array of measurements
  is non-empty exactly when there is such a row, and the labels passed are as many as the
  measurements.
\<close>

theorem fit_input_is_empty_without_present_row:
  "empty_without_present_row X y (fst (fit_all_gmm_models fit X y flag)) \<and>
   empty_without_present_row X y (fst (fit_all_kde_models fit' X y flag dirn a b quant)) \<and>
   empty_without_present_row X y
     (fst (fit_all_kde_models_plus fit' X y flag dirn alphas betas quant))"
proof (cases "first_two_diagnoses X y")
  case (Inl e)
  show ?thesis
    unfolding entry_points_without_rows [OF Inl] by (simp add: no_calls_empty)
next
  case (Inr Xy)
  obtain X' y' where Xy: "Xy = (X', y')" by (cases Xy)
  note f = Inr [unfolded Xy]
  note t = take_columns_empty [OF f]
  show ?thesis
    by (intro conjI entry_points_take_columns [OF f, THEN t])
qed

theorem fit_input_is_empty_without_present_row_witness:
  "fst (fit_all_gmm_models Inr empty_column [0, 1] False)
     = [\<lparr>bio_X = [1, 2], bio_y = [0, 1]\<rparr>, \<lparr>bio_X = [], bio_y = []\<rparr>] \<and>
   (\<exists>(r, l)\<in>set (zip (rows empty_column) [0, 1::int]). l < 2 \<and> r ! 0 \<noteq> None) \<and>
   \<not> (\<exists>(r, l)\<in>set (zip (rows empty_column) [0, 1::int]). l < 2 \<and> r ! 1 \<noteq> None) \<and>
   empty_without_present_row empty_column [0, 1]
     (fst (fit_all_gmm_models Inr empty_column [0, 1] False)) \<and>
   empty_without_present_row empty_column [0, 1]
     (fst (fit_all_kde_models Inr empty_column [0, 1] False (Some [1, 1]) (PyFloat (3/10))
        PyNone (9/10))) \<and>
   empty_without_present_row empty_column [0, 1]
     (fst (fit_all_kde_models_plus Inr empty_column [0, 1] False (Some [1, 1]) PyNone PyNone
        (9/10)))"
proof -
  have c: "fst (fit_all_gmm_models Inr empty_column [0, 1] False)
     = [\<lparr>bio_X = [1, 2], bio_y = [0, 1]\<rparr>, \<lparr>bio_X = [], bio_y = []\<rparr>]" by code_simp
  have p: "\<exists>(r, l)\<in>set (zip (rows empty_column) [0, 1::int]). l < 2 \<and> r ! 0 \<noteq> None" by simp
  have q: "\<not> (\<exists>(r, l)\<in>set (zip (rows empty_column) [0, 1::int]). l < 2 \<and> r ! 1 \<noteq> None)"
    by simp
  from fit_input_is_empty_without_present_row [where X = empty_column and y = "[0, 1]"
      and fit = Inr and flag = False and fit' = Inr and dirn = "Some [1, 1]"
      and a = "PyFloat (3/10)" and b = PyNone and quant = "9/10" and alphas = PyNone
      and betas = PyNone] c p q
  show ?thesis by blast
qed


section \<open>Properties of the store model\<close>

subsection \<open>What is left unchanged\<close>

lemma take_length_le: "take (length a) b = a \<Longrightarrow> length a \<le> length b"
  by (drule arg_cong [where f = length]) simp

lemma take_chain:
  assumes "take (length a) b = a" and "take (length b) c = b"
  shows "take (length a) c = a"
proof -
  have "length a \<le> length b" using assms(1) by (rule take_length_le)
  then have "take (length a) c = take (length a) (take (length b) c)" by (simp add: min_def)
  then show ?thesis using assms by simp
qed

lemma keeps_refl: "keeps s s"
  by (simp add: keeps_def)

lemma keeps_trans: "keeps a b \<Longrightarrow> keeps b c \<Longrightarrow> keeps a c"
  unfolding keeps_def by (blast intro: take_chain)

lemma keeps_lengths:
  assumes "keeps s0 s"
  shows "length (tables s0) \<le> length (tables s)" "length (labels s0) \<le> length (labels s)"
    "length (floats s0) \<le> length (floats s)" "length (tensors s0) \<le> length (tensors s)"
  using assms unfolding keeps_def by (simp_all add: take_length_le)

lemma keeps_nth:
  assumes "keeps s0 s"
  shows "X < length (tables s0) \<Longrightarrow> tables s ! X = tables s0 ! X"
    and "y < length (labels s0) \<Longrightarrow> labels s ! y = labels s0 ! y"
  using assms unfolding keeps_def by (metis nth_take)+

lemma keeps_new:
  "keeps s (snd (new_table t s))" "keeps s (snd (new_labels l s))"
  "keeps s (snd (new_floats v s))" "keeps s (snd (new_tensor z s))"
  by (simp_all add: keeps_def new_table_def new_labels_def new_floats_def new_tensor_def)

lemma fst_new:
  "fst (new_table t s) = length (tables s)" "fst (new_labels l s) = length (labels s)"
  "fst (new_floats v s) = length (floats s)" "fst (new_tensor z s) = length (tensors s)"
  by (simp_all add: new_table_def new_labels_def new_floats_def new_tensor_def)

lemma take_update_above: "n \<le> m \<Longrightarrow> take n (xs[m := x]) = take n xs"
  by simp

lemma take_through:
  assumes "take (length a) b = a" and "take (length b) c = b[m := x]" and "length a \<le> m"
  shows "take (length a) c = a"
proof -
  have "length a \<le> length b" using assms(1) by (rule take_length_le)
  then have "take (length a) c = take (length a) (take (length b) c)" by (simp add: min_def)
  also have "\<dots> = take (length a) b" using assms(2,3) by simp
  finally show ?thesis using assms(1) by simp
qed

lemma keeps_fit:
  assumes "fit_writes_only_arguments fit" and "keeps s0 s"
    and "length (floats s0) \<le> bio_X_at a" and "length (labels s0) \<le> bio_y_at a"
  shows "keeps s0 (fst (fit a s))"
proof -
  from assms(1) have f:
    "take (length (tables s)) (tables (fst (fit a s))) = tables s"
    "take (length (tensors s)) (tensors (fst (fit a s))) = tensors s"
    "take (length (labels s)) (labels (fst (fit a s)))
       = (labels s)[bio_y_at a := labels (fst (fit a s)) ! bio_y_at a]"
    "take (length (floats s)) (floats (fst (fit a s)))
       = (floats s)[bio_X_at a := floats (fst (fit a s)) ! bio_X_at a]"
    unfolding fit_writes_only_arguments_def by blast+
  from assms(2) have k:
    "take (length (tables s0)) (tables s) = tables s0"
    "take (length (labels s0)) (labels s) = labels s0"
    "take (length (floats s0)) (floats s) = floats s0"
    "take (length (tensors s0)) (tensors s) = tensors s0"
    unfolding keeps_def by blast+
  show ?thesis
    unfolding keeps_def
    using take_chain [OF k(1) f(1)] take_chain [OF k(4) f(2)]
      take_through [OF k(2) f(3) assms(4)] take_through [OF k(3) f(4) assms(3)]
    by blast
qed

lemma keeps_probability:
  assumes "probability_writes_only_argument mm" and "keeps s0 s"
    and "length (floats s0) \<le> a"
  shows "keeps s0 (fst (mm a s))"
proof -
  from assms(1) have f:
    "take (length (tables s)) (tables (fst (mm a s))) = tables s"
    "take (length (tensors s)) (tensors (fst (mm a s))) = tensors s"
    "take (length (labels s)) (labels (fst (mm a s))) = labels s"
    "take (length (floats s)) (floats (fst (mm a s)))
       = (floats s)[a := floats (fst (mm a s)) ! a]"
    unfolding probability_writes_only_argument_def by blast+
  from assms(2) have k:
    "take (length (tables s0)) (tables s) = tables s0"
    "take (length (labels s0)) (labels s) = labels s0"
    "take (length (floats s0)) (floats s) = floats s0"
    "take (length (tensors s0)) (tensors s) = tensors s0"
    unfolding keeps_def by blast+
  show ?thesis
    unfolding keeps_def
    using take_chain [OF k(1) f(1)] take_chain [OF k(4) f(2)]
      take_chain [OF k(2) f(3)] take_through [OF k(3) f(4) assms(3)]
    by blast
qed

lemma keeps_tensor_update:
  assumes "keeps s0 s" and "length (tensors s0) \<le> pm"
  shows "keeps s0 (s\<lparr>tensors := (tensors s)[pm := t]\<rparr>)"
  using assms by (simp add: keeps_def)

lemma gmm_refs_new: "makes_new_arguments (gmm_refs X y)"
  by (simp add: makes_new_arguments_def gmm_refs_def keeps_def new_labels_def new_floats_def)

lemma kde_refs_new: "makes_new_arguments (kde_refs X y flag ds a b quant)"
  by (simp add: makes_new_arguments_def kde_refs_def keeps_def new_labels_def new_floats_def
      split: sum.splits)

lemma kde_plus_refs_new: "makes_new_arguments (kde_plus_refs X y flag ds alphas betas quant)"
  by (simp add: makes_new_arguments_def kde_plus_refs_def keeps_def new_labels_def
      new_floats_def Let_def split: sum.splits)

lemma fit_loop_h_keeps:
  assumes n: "makes_new_arguments args" and f: "fit_writes_only_arguments fit"
  shows "keeps s0 s \<Longrightarrow> keeps s0 (fst (fit_loop_h args fit is ms s))"
proof (induction "is" arbitrary: ms s)
  case Nil
  then show ?case by simp
next
  case (Cons i "is")
  obtain s1 r where a: "args i s = (s1, r)" by (cases "args i s")
  from n have k1: "keeps s s1"
    and fresh: "\<And>a. r = Inr a \<Longrightarrow>
                  length (floats s) \<le> bio_X_at a \<and> length (labels s) \<le> bio_y_at a"
    unfolding makes_new_arguments_def using a by (metis fst_conv, metis snd_conv)
  have k01: "keeps s0 s1" using Cons.prems k1 by (rule keeps_trans)
  show ?case
  proof (cases r)
    case (Inl e)
    then show ?thesis using a k01 by simp
  next
    case (Inr ar)
    obtain s2 r2 where b: "fit ar s1 = (s2, r2)" by (cases "fit ar s1")
    have "length (floats s0) \<le> bio_X_at ar" "length (labels s0) \<le> bio_y_at ar"
      using fresh [OF Inr] keeps_lengths [OF Cons.prems] by simp_all
    from keeps_fit [OF f k01 this] b have k02: "keeps s0 s2" by simp
    show ?thesis
    proof (cases r2)
      case (Inl e)
      then show ?thesis using a Inr b k02 by simp
    next
      case mm: (Inr m)
      then show ?thesis using a Inr b Cons.IH [OF k02] by simp
    qed
  qed
qed

lemma first_two_diagnoses_h_keeps: "keeps s (fst (first_two_diagnoses_h X y s))"
  by (simp add: first_two_diagnoses_h_def keeps_def new_table_def new_labels_def Let_def
      split: sum.splits)

lemma fit_all_gmm_models_h_keeps:
  assumes "fit_writes_only_arguments fit"
  shows "keeps s (fst (fit_all_gmm_models_h fit X y flag s))"
proof -
  obtain s1 r where d: "first_two_diagnoses_h X y s = (s1, r)"
    by (cases "first_two_diagnoses_h X y s")
  have k: "keeps s s1" using first_two_diagnoses_h_keeps [of s X y] d by simp
  show ?thesis
  proof (cases r)
    case (Inl e)
    then show ?thesis using d k by (simp add: fit_all_gmm_models_h_def)
  next
    case (Inr Xy)
    obtain X' y' where Xy: "Xy = (X', y')" by (cases Xy)
    show ?thesis
      using fit_loop_h_keeps [OF gmm_refs_new assms k] d Inr Xy
      by (simp add: fit_all_gmm_models_h_def)
  qed
qed

lemma fit_all_kde_models_h_keeps:
  assumes "fit_writes_only_arguments fit"
  shows "keeps s (fst (fit_all_kde_models_h fit X y flag ds a b quant s))"
proof -
  obtain s1 r where d: "first_two_diagnoses_h X y s = (s1, r)"
    by (cases "first_two_diagnoses_h X y s")
  have k: "keeps s s1" using first_two_diagnoses_h_keeps [of s X y] d by simp
  show ?thesis
  proof (cases r)
    case (Inl e)
    then show ?thesis using d k by (simp add: fit_all_kde_models_h_def)
  next
    case (Inr Xy)
    obtain X' y' where Xy: "Xy = (X', y')" by (cases Xy)
    show ?thesis
      using fit_loop_h_keeps [OF kde_refs_new assms k] d Inr Xy
      by (simp add: fit_all_kde_models_h_def)
  qed
qed

lemma fit_all_kde_models_plus_h_keeps:
  assumes "fit_writes_only_arguments fit"
  shows "keeps s (fst (fit_all_kde_models_plus_h fit X y flag ds alphas betas quant s))"
proof -
  obtain s1 r where d: "first_two_diagnoses_h X y s = (s1, r)"
    by (cases "first_two_diagnoses_h X y s")
  have k: "keeps s s1" using first_two_diagnoses_h_keeps [of s X y] d by simp
  show ?thesis
  proof (cases r)
    case (Inl e)
    then show ?thesis using d k by (simp add: fit_all_kde_models_plus_h_def)
  next
    case (Inr Xy)
    obtain X' y' where Xy: "Xy = (X', y')" by (cases Xy)
    show ?thesis
      using fit_loop_h_keeps [OF kde_plus_refs_new assms k] d Inr Xy
      by (simp add: fit_all_kde_models_plus_h_def Let_def)
  qed
qed

lemma prob_loop_h_keeps:
  assumes m: "\<forall>mm\<in>set mms. probability_writes_only_argument mm"
    and p: "length (tensors s0) \<le> pm"
  shows "keeps s0 s \<Longrightarrow> keeps s0 (fst (prob_loop_h X mms is pm s))"
proof (induction "is" arbitrary: s)
  case Nil
  then show ?case by simp
next
  case (Cons i "is")
  show ?case
  proof (cases "getitem mms i")
    case (Inl e)
    then show ?thesis using Cons.prems by (simp add: Let_def)
  next
    case (Inr mm)
    then have mmf: "probability_writes_only_argument mm"
      using m by (auto simp: getitem_def split: if_splits)
    let ?v = "present (read_view s (Column X i))"
    let ?arg = "fst (new_floats ?v s)"
    let ?s1 = "snd (new_floats ?v s)"
    have k1: "keeps s0 ?s1" using Cons.prems keeps_new(3) by (rule keeps_trans)
    have fresh: "length (floats s0) \<le> ?arg"
      using keeps_lengths(3) [OF Cons.prems] by (simp add: fst_new)
    obtain s2 r where b: "mm ?arg ?s1 = (s2, r)" by (cases "mm ?arg ?s1")
    from keeps_probability [OF mmf k1 fresh] b have k2: "keeps s0 s2" by simp
    show ?thesis
    proof (cases r)
      case (Inl e)
      then show ?thesis using Inr b k2 by (simp add: Let_def split_beta)
    next
      case probs: (Inr probs)
      show ?thesis
      proof (cases "assign_masked (not_nan (read_view s (Column X i))) i 0 (floats s2 ! probs)
                      (tensors s2 ! pm)")
        case (Inl e)
        then show ?thesis using Inr b probs k2 by (simp add: Let_def split_beta)
      next
        case pm1: (Inr pm1)
        let ?s3 = "s2\<lparr>tensors := (tensors s2)
                    [pm := assign_const (map Not (not_nan (read_view s (Column X i)))) i 0 (1/2)
                             pm1]\<rparr>"
        have "keeps s0 ?s3" using k2 p by (rule keeps_tensor_update)
        from Cons.IH [OF this] show ?thesis
          using Inr b probs pm1 by (simp add: Let_def split_beta)
      qed
    qed
  qed
qed

lemma prob_loop_h_returns_tensor:
  "snd (prob_loop_h X mms is pm s) = Inr pm' \<Longrightarrow> pm' = pm"
proof (induction "is" arbitrary: s)
  case Nil
  then show ?case by simp
next
  case (Cons i "is")
  then show ?case
    by (auto simp: Let_def split: sum.splits prod.splits)
qed

lemma get_prob_mat_h_keeps:
  assumes "\<forall>mm\<in>set mms. probability_writes_only_argument mm"
  shows "keeps s (fst (get_prob_mat_h X mms s))"
proof -
  let ?z = "zeros (n_particp (tables s ! X)) (n_biomarkers (tables s ! X)) 2"
  let ?pm = "fst (new_tensor ?z s)"
  let ?s1 = "snd (new_tensor ?z s)"
  have k1: "keeps s ?s1" by (rule keeps_new)
  have p: "length (tensors s) \<le> ?pm" by (simp add: fst_new)
  obtain s2 r where l: "prob_loop_h X mms [0..<n_biomarkers (tables s ! X)] ?pm ?s1 = (s2, r)"
    by (cases "prob_loop_h X mms [0..<n_biomarkers (tables s ! X)] ?pm ?s1")
  from prob_loop_h_keeps [OF assms p k1, of X "[0..<n_biomarkers (tables s ! X)]"] l
  have k2: "keeps s s2" by simp
  show ?thesis
  proof (cases r)
    case (Inl e)
    then show ?thesis using l k2 by (simp add: get_prob_mat_h_def Let_def split_beta)
  next
    case (Inr pm')
    have pm': "pm' = ?pm"
      using prob_loop_h_returns_tensor [of X mms "[0..<n_biomarkers (tables s ! X)]" ?pm ?s1 pm']
        l Inr by simp
    have "keeps s (s2\<lparr>tensors := (tensors s2)[pm' := complement (tensors s2 ! pm')]\<rparr>)"
      using k2 p unfolding pm' by (rule keeps_tensor_update)
    then show ?thesis using l Inr by (simp add: get_prob_mat_h_def Let_def split_beta)
  qed
qed

lemma keeps_same_inputs:
  "keeps s s' \<Longrightarrow> X < length (tables s) \<Longrightarrow> y < length (labels s) \<Longrightarrow> same_inputs X y s s'"
  by (simp add: same_inputs_def keeps_nth)

lemma update_self: "xs[i := v] = xs[i := xs[i := v] ! i]"
  by (cases "i < length xs") (simp_all add: not_less list_update_beyond)

lemma overwriting_fit_ok: "fit_writes_only_arguments overwriting_fit"
  unfolding fit_writes_only_arguments_def overwriting_fit_def
  by (simp add: update_self [symmetric])

lemma overwriting_model_ok: "probability_writes_only_argument overwriting_model"
  unfolding probability_writes_only_argument_def overwriting_model_def
  by (simp add: update_self [symmetric])

subsection \<open>The store model computes what the model on values computes\<close>

text \<open>
  With collaborators that do not touch the store, each operation on the store returns what
  the operation on values returns for the contents of \<^verbatim>\<open>X\<close> and \<^verbatim>\<open>y\<close>.
\<close>

lemma fit_loop_h_agrees:
  assumes step: "\<And>i s. Inv s \<Longrightarrow>
        Inv (fst (args_h i s)) \<and> map_sum id (rd (fst (args_h i s))) (snd (args_h i s)) = args i"
    and fit_h: "\<And>a s. fit_h a s = (s, fit (rd s a))"
  shows "Inv s \<Longrightarrow>
         snd (fit_loop_h args_h fit_h is ms s) = snd (fit_loop args fit is calls ms)"
proof (induction "is" arbitrary: ms s calls)
  case Nil
  then show ?case by simp
next
  case (Cons i "is")
  obtain s1 r where a: "args_h i s = (s1, r)" by (cases "args_h i s")
  from step [OF Cons.prems, of i] a have inv1: "Inv s1" and ar: "map_sum id (rd s1) r = args i"
    by simp_all
  show ?case
  proof (cases r)
    case (Inl e)
    then show ?thesis using a ar [symmetric] by simp
  next
    case (Inr ah)
    then have ai: "args i = Inr (rd s1 ah)" using ar by simp
    show ?thesis
    proof (cases "fit (rd s1 ah)")
      case (Inl e)
      then show ?thesis using a Inr ai by (simp add: fit_h)
    next
      case mm: (Inr m)
      then show ?thesis
        using a Inr ai Cons.IH [OF inv1, of "ms @ [m]" "calls @ [rd s1 ah]"] by (simp add: fit_h)
    qed
  qed
qed

lemma first_two_diagnoses_h_agrees:
  assumes "X < length (tables s)" and "y < length (labels s)"
  shows "case snd (first_two_diagnoses_h X y s) of
           Inl e \<Rightarrow> first_two_diagnoses (tables s ! X) (labels s ! y) = Inl e
         | Inr (X1, y1) \<Rightarrow>
             (\<exists>X' y'. first_two_diagnoses (tables s ! X) (labels s ! y) = Inr (X', y') \<and>
                holds X1 X' y1 y' (fst (first_two_diagnoses_h X y s)))"
  using assms
  by (simp add: first_two_diagnoses_h_def first_two_diagnoses_def holds_def new_table_def
      new_labels_def Let_def nth_append split: sum.splits)

lemma gmm_refs_agrees:
  assumes "holds X Xv y yv s"
  shows "holds X Xv y yv (fst (gmm_refs X y i s)) \<and>
         map_sum id (read_fit_args (fst (gmm_refs X y i s))) (snd (gmm_refs X y i s))
           = gmm_args Xv yv i"
  using assms
  by (simp add: holds_def gmm_refs_def gmm_args_def read_fit_args_def new_labels_def
      new_floats_def nth_append)

lemma kde_refs_agrees:
  assumes "holds X Xv y yv s"
  shows "holds X Xv y yv (fst (kde_refs X y flag ds a b quant i s)) \<and>
         map_sum id (read_kde_fit_args (fst (kde_refs X y flag ds a b quant i s)))
           (snd (kde_refs X y flag ds a b quant i s))
           = kde_args Xv yv flag ds a b quant i"
  using assms
  by (simp add: holds_def kde_refs_def kde_args_def read_kde_fit_args_def new_labels_def
      new_floats_def nth_append Let_def split: sum.splits)

lemma kde_plus_refs_agrees:
  assumes "holds X Xv y yv s"
  shows "holds X Xv y yv (fst (kde_plus_refs X y flag ds alphas betas quant i s)) \<and>
         map_sum id (read_kde_fit_args (fst (kde_plus_refs X y flag ds alphas betas quant i s)))
           (snd (kde_plus_refs X y flag ds alphas betas quant i s))
           = kde_plus_args Xv yv flag ds alphas betas quant i"
  using assms
  by (simp add: holds_def kde_plus_refs_def kde_plus_args_def read_kde_fit_args_def
      new_labels_def new_floats_def nth_append Let_def split: sum.splits)

lemma fit_all_gmm_models_h_agrees:
  assumes "X < length (tables s)" and "y < length (labels s)"
  shows "snd (fit_all_gmm_models_h (pure_fit fit) X y flag s)
           = snd (fit_all_gmm_models fit (tables s ! X) (labels s ! y) flag)"
proof -
  obtain s1 r where d: "first_two_diagnoses_h X y s = (s1, r)"
    by (cases "first_two_diagnoses_h X y s")
  note f = first_two_diagnoses_h_agrees [OF assms, unfolded d, simplified]
  show ?thesis
  proof (cases r)
    case (Inl e)
    then show ?thesis
      using f d by (simp add: fit_all_gmm_models_h_def fit_all_gmm_models_def)
  next
    case (Inr Xy)
    obtain X1 y1 where Xy: "Xy = (X1, y1)" by (cases Xy)
    from f Inr Xy obtain X' y' where
      p: "first_two_diagnoses (tables s ! X) (labels s ! y) = Inr (X', y')"
      and h: "holds X1 X' y1 y' s1" by auto
    have n: "n_biomarkers (tables s1 ! X1) = n_biomarkers X'" using h by (simp add: holds_def)
    have "snd (fit_loop_h (gmm_refs X1 y1) (pure_fit fit) [0..<n_biomarkers X'] [] s1)
        = snd (fit_loop (gmm_args X' y') fit [0..<n_biomarkers X'] [] [])"
      by (rule fit_loop_h_agrees [where Inv = "holds X1 X' y1 y'" and rd = read_fit_args,
            OF gmm_refs_agrees _ h])
        (simp_all add: pure_fit_def read_fit_args_def)
    then show ?thesis
      using d Inr Xy p n by (simp add: fit_all_gmm_models_h_def fit_all_gmm_models_def)
  qed
qed

lemma fit_all_kde_models_h_agrees:
  assumes "X < length (tables s)" and "y < length (labels s)"
  shows "snd (fit_all_kde_models_h (pure_kde_fit fit) X y flag ds a b quant s)
           = snd (fit_all_kde_models fit (tables s ! X) (labels s ! y) flag ds a b quant)"
proof -
  obtain s1 r where d: "first_two_diagnoses_h X y s = (s1, r)"
    by (cases "first_two_diagnoses_h X y s")
  note f = first_two_diagnoses_h_agrees [OF assms, unfolded d, simplified]
  show ?thesis
  proof (cases r)
    case (Inl e)
    then show ?thesis
      using f d by (simp add: fit_all_kde_models_h_def fit_all_kde_models_def)
  next
    case (Inr Xy)
    obtain X1 y1 where Xy: "Xy = (X1, y1)" by (cases Xy)
    from f Inr Xy obtain X' y' where
      p: "first_two_diagnoses (tables s ! X) (labels s ! y) = Inr (X', y')"
      and h: "holds X1 X' y1 y' s1" by auto
    have n: "n_biomarkers (tables s1 ! X1) = n_biomarkers X'" using h by (simp add: holds_def)
    have "snd (fit_loop_h (kde_refs X1 y1 flag ds a b quant) (pure_kde_fit fit)
                [0..<n_biomarkers X'] [] s1)
        = snd (fit_loop (kde_args X' y' flag ds a b quant) fit [0..<n_biomarkers X'] [] [])"
      by (rule fit_loop_h_agrees [where Inv = "holds X1 X' y1 y'" and rd = read_kde_fit_args,
            OF kde_refs_agrees _ h])
        (simp_all add: pure_kde_fit_def read_kde_fit_args_def)
    then show ?thesis
      using d Inr Xy p n by (simp add: fit_all_kde_models_h_def fit_all_kde_models_def)
  qed
qed

lemma fit_all_kde_models_plus_h_agrees:
  assumes "X < length (tables s)" and "y < length (labels s)"
  shows "snd (fit_all_kde_models_plus_h (pure_kde_fit fit) X y flag ds alphas betas quant s)
           = snd (fit_all_kde_models_plus fit (tables s ! X) (labels s ! y) flag ds alphas betas
                    quant)"
proof -
  obtain s1 r where d: "first_two_diagnoses_h X y s = (s1, r)"
    by (cases "first_two_diagnoses_h X y s")
  note f = first_two_diagnoses_h_agrees [OF assms, unfolded d, simplified]
  show ?thesis
  proof (cases r)
    case (Inl e)
    then show ?thesis
      using f d by (simp add: fit_all_kde_models_plus_h_def fit_all_kde_models_plus_def)
  next
    case (Inr Xy)
    obtain X1 y1 where Xy: "Xy = (X1, y1)" by (cases Xy)
    from f Inr Xy obtain X' y' where
      p: "first_two_diagnoses (tables s ! X) (labels s ! y) = Inr (X', y')"
      and h: "holds X1 X' y1 y' s1" by auto
    have n: "n_biomarkers (tables s1 ! X1) = n_biomarkers X'" using h by (simp add: holds_def)
    let ?A = "resolve_alphas (n_biomarkers X') alphas"
    let ?B = "resolve_betas (n_biomarkers X') ?A betas"
    have "snd (fit_loop_h (kde_plus_refs X1 y1 flag ds ?A ?B quant) (pure_kde_fit fit)
                [0..<n_biomarkers X'] [] s1)
        = snd (fit_loop (kde_plus_args X' y' flag ds ?A ?B quant) fit [0..<n_biomarkers X'] [] [])"
      by (rule fit_loop_h_agrees [where Inv = "holds X1 X' y1 y'" and rd = read_kde_fit_args,
            OF kde_plus_refs_agrees _ h])
        (simp_all add: pure_kde_fit_def read_kde_fit_args_def)
    then show ?thesis
      using d Inr Xy p n
      by (simp add: fit_all_kde_models_plus_h_def fit_all_kde_models_plus_def Let_def)
  qed
qed

lemma nth_append_two: "(xs @ [a, b]) ! Suc (length xs) = b"
  by (simp add: nth_append)

lemma prob_loop_h_agrees:
  "X < length (tables s) \<Longrightarrow> pm < length (tensors s) \<Longrightarrow>
   pm < length (tensors (fst (prob_loop_h X (map pure_model mms) is pm s))) \<and>
   (case snd (prob_loop_h X (map pure_model mms) is pm s) of
      Inl e \<Rightarrow> snd (prob_loop (tables s ! X) mms is calls (tensors s ! pm)) = Inl e
    | Inr p \<Rightarrow> p = pm \<and>
        snd (prob_loop (tables s ! X) mms is calls (tensors s ! pm))
          = Inr (tensors (fst (prob_loop_h X (map pure_model mms) is pm s)) ! pm))"
proof (induction "is" arbitrary: s calls)
  case Nil
  then show ?case by simp
next
  case (Cons i "is")
  let ?c = "col (tables s ! X) i"
  show ?case
  proof (cases "i < length mms")
    case False
    then show ?thesis using Cons.prems by (simp add: getitem_def Let_def)
  next
    case True
    let ?s1 = "s\<lparr>floats := floats s @ [present ?c]\<rparr>"
    show ?thesis
    proof (cases "(mms ! i) (present ?c)")
      case (Inl e)
      then show ?thesis
        using True Cons.prems
        by (simp add: getitem_def Let_def new_floats_def pure_model_def nth_append_two)
    next
      case (Inr probs)
      let ?s2 = "?s1\<lparr>floats := floats ?s1 @ [probs]\<rparr>"
      show ?thesis
      proof (cases "assign_masked (not_nan ?c) i 0 probs (tensors s ! pm)")
        case (Inl e)
        then show ?thesis
          using True Inr Cons.prems
          by (simp add: getitem_def Let_def new_floats_def pure_model_def nth_append_two)
      next
        case pm1: (Inr pm1)
        let ?new = "assign_const (map Not (not_nan ?c)) i 0 (1/2) pm1"
        let ?s3 = "?s2\<lparr>tensors := (tensors ?s2)[pm := ?new]\<rparr>"
        have a: "X < length (tables ?s3)" "pm < length (tensors ?s3)"
          using Cons.prems by simp_all
        have t: "tables ?s3 ! X = tables s ! X" "tensors ?s3 ! pm = ?new"
          using Cons.prems by simp_all
        note IH = Cons.IH [OF a, of "calls @ [(i, present ?c)]", unfolded t]
        have h: "prob_loop_h X (map pure_model mms) (i # is) pm s
                   = prob_loop_h X (map pure_model mms) is pm ?s3"
          using True Inr pm1 by (simp add: getitem_def Let_def new_floats_def pure_model_def nth_append_two)
        have p: "prob_loop (tables s ! X) mms (i # is) calls (tensors s ! pm)
                   = prob_loop (tables s ! X) mms is (calls @ [(i, present ?c)]) ?new"
          using True Inr pm1 by (simp add: getitem_def Let_def)
        show ?thesis unfolding h p using IH .
      qed
    qed
  qed
qed

lemma get_prob_mat_h_agrees:
  assumes "X < length (tables s)"
  shows "case snd (get_prob_mat_h X (map pure_model mms) s) of
           Inl e \<Rightarrow> snd (get_prob_mat (tables s ! X) mms) = Inl e
         | Inr p \<Rightarrow> snd (get_prob_mat (tables s ! X) mms)
                      = Inr (tensors (fst (get_prob_mat_h X (map pure_model mms) s)) ! p)"
proof -
  let ?Xv = "tables s ! X"
  let ?z = "zeros (n_particp ?Xv) (n_biomarkers ?Xv) 2"
  let ?s1 = "s\<lparr>tensors := tensors s @ [?z]\<rparr>"
  let ?pm = "length (tensors s)"
  let ?h = "prob_loop_h X (map pure_model mms) [0..<n_biomarkers ?Xv] ?pm ?s1"
  have a: "X < length (tables ?s1)" "?pm < length (tensors ?s1)" using assms by simp_all
  have t: "tables ?s1 ! X = ?Xv" "tensors ?s1 ! ?pm = ?z" by simp_all
  note L = prob_loop_h_agrees [OF a, of mms "[0..<n_biomarkers ?Xv]" "[]", unfolded t]
  obtain cs r where pl: "prob_loop ?Xv mms [0..<n_biomarkers ?Xv] [] ?z = (cs, r)"
    by (cases "prob_loop ?Xv mms [0..<n_biomarkers ?Xv] [] ?z")
  obtain s2 rh where hl: "?h = (s2, rh)" by (cases ?h)
  show ?thesis
  proof (cases rh)
    case (Inl e)
    then show ?thesis
      using L pl hl by (simp add: get_prob_mat_h_def get_prob_mat_def new_tensor_def Let_def)
  next
    case (Inr p)
    then show ?thesis
      using L pl hl by (simp add: get_prob_mat_h_def get_prob_mat_def new_tensor_def Let_def)
  qed
qed

subsection \<open>The caller's arrays\<close>

text \<open>
  C9.  Provided the mixture models write only into the arrays they are handed, each of the
  three fitting entry points and \<^verbatim>\<open>get_prob_mat\<close> leaves the caller's table \<^verbatim>\<open>X\<close> and label
  vector \<^verbatim>\<open>y\<close> as they were, and with them every array that existed before the call: the
  filtering makes new arrays, the models are handed new arrays only, and the only array
  written in place is the new tensor.
\<close>

theorem inputs_are_left_unchanged:
  assumes "fit_writes_only_arguments fit" and "fit_writes_only_arguments fit'"
    and "\<forall>mm\<in>set mixture_models. probability_writes_only_argument mm"
    and "X < length (tables s)" and "y < length (labels s)"
  shows "same_inputs X y s (fst (fit_all_gmm_models_h fit X y flag s)) \<and>
         same_inputs X y s (fst (fit_all_kde_models_h fit' X y flag dirn a b quant s)) \<and>
         same_inputs X y s
           (fst (fit_all_kde_models_plus_h fit' X y flag dirn alphas betas quant s)) \<and>
         same_inputs X y s (fst (get_prob_mat_h X mixture_models s)) \<and>
         keeps s (fst (fit_all_gmm_models_h fit X y flag s)) \<and>
         keeps s (fst (fit_all_kde_models_h fit' X y flag dirn a b quant s)) \<and>
         keeps s (fst (fit_all_kde_models_plus_h fit' X y flag dirn alphas betas quant s)) \<and>
         keeps s (fst (get_prob_mat_h X mixture_models s))"
  using fit_all_gmm_models_h_keeps [OF assms(1)] fit_all_kde_models_h_keeps [OF assms(2)]
    fit_all_kde_models_plus_h_keeps [OF assms(2)] get_prob_mat_h_keeps [OF assms(3)]
    assms(4,5)
  by (simp add: keeps_same_inputs)

theorem inputs_are_left_unchanged_witness:
  "fit_writes_only_arguments (overwriting_fit :: fit_refs \<Rightarrow> store \<Rightarrow> store \<times> (py_error + unit)) \<and>
   fit_writes_only_arguments
     (overwriting_fit :: kde_fit_refs \<Rightarrow> store \<Rightarrow> store \<times> (py_error + unit)) \<and>
   probability_writes_only_argument overwriting_model \<and>
   0 < length (tables example_store) \<and> 0 < length (labels example_store) \<and>
   fit_all_gmm_models_h overwriting_fit 0 0 False example_store
     = (\<lparr>tables = [fit_table,
                    \<lparr>n_biomarkers = 2, rows = [[Some 1, None], [Some 4, Some 5]]\<rparr>],
         labels = [fit_labels, [0, 1], [], []], floats = [[], []], tensors = []\<rparr>,
        Inr [(), ()]) \<and>
   floats (fst (get_prob_mat_h 0 [overwriting_model, overwriting_model] example_store))
     = [[0, 0], [0, 0]] \<and>
   same_inputs 0 0 example_store
     (fst (fit_all_gmm_models_h overwriting_fit 0 0 False example_store)) \<and>
   same_inputs 0 0 example_store
     (fst (fit_all_kde_models_h overwriting_fit 0 0 False (Some [1, - 1]) (PyFloat (3/10))
        PyNone (9/10) example_store)) \<and>
   same_inputs 0 0 example_store
     (fst (fit_all_kde_models_plus_h overwriting_fit 0 0 False (Some [1, - 1]) PyNone PyNone
        (9/10) example_store)) \<and>
   same_inputs 0 0 example_store
     (fst (get_prob_mat_h 0 [overwriting_model, overwriting_model] example_store))"
proof -
  have m: "\<forall>mm\<in>set [overwriting_model, overwriting_model].
             probability_writes_only_argument mm"
    by (simp add: overwriting_model_ok)
  have X: "0 < length (tables example_store)" and y: "0 < length (labels example_store)"
    by simp_all
  have g: "fit_all_gmm_models_h overwriting_fit 0 0 False example_store
     = (\<lparr>tables = [fit_table,
                    \<lparr>n_biomarkers = 2, rows = [[Some 1, None], [Some 4, Some 5]]\<rparr>],
         labels = [fit_labels, [0, 1], [], []], floats = [[], []], tensors = []\<rparr>,
        Inr [(), ()])" by code_simp
  have p: "floats (fst (get_prob_mat_h 0 [overwriting_model, overwriting_model] example_store))
     = [[0, 0], [0, 0]]" by code_simp
  from inputs_are_left_unchanged [OF overwriting_fit_ok overwriting_fit_ok m X y,
      where flag = False and dirn = "Some [1, - 1]" and a = "PyFloat (3/10)" and b = PyNone
      and quant = "9/10" and alphas = PyNone and betas = PyNone]
    overwriting_fit_ok overwriting_fit_ok overwriting_model_ok X y g p
  show ?thesis by blast
qed

end
